theory Spec2Isabelle
  imports Main "HOL-Library.AList"
begin

section \<open>Values of the bot framework\<close>

text \<open>
  The module \<open>marvin/marvin.py\<close> imports the enumerations \<open>Mode\<close> and \<open>Media\<close> and the
  classes \<open>ParsingDict\<close>, \<open>RegExDict\<close>, \<open>User\<close> and \<open>Message\<close> from \<open>marvin.helper\<close>,
  which is not among the sources. The enumerations are declared here with the members
  that \<open>marvin.py\<close> names.
\<close>

text \<open>Modelled from the spec: \<open>helper.Mode\<close>, the matcher-kind of a route (exact, parse, regex).\<close>
datatype Mode = DEFAULT | PARSE | REGEX

text \<open>Modelled from the spec: \<open>helper.Media\<close>, the media kinds of an answer.\<close>
datatype Media = TEXT | STICKER | VOICE | AUDIO | PHOTO | VIDEO | DOCUMENT

text \<open>
  A callable registered by the user of the framework. Callables are referred to by
  identity; what a call does is supplied by the environment (\<open>invoke\<close> below).
  \<open>Default_pass\<close> is the built-in \<open>_Session.default_answer\<close>, whose body is \<open>pass\<close>.
\<close>
datatype callable = Default_pass | Fn nat

text \<open>
  Exceptions: the class, as far as the \<open>except\<close> clauses and \<open>isinstance\<close> tests of the
  source distinguish it, and the tuple \<open>e.args\<close>.
\<close>
datatype exn_class =
  KeyError | IndexError | TypeError | AttributeError
  | FileNotFoundError | OSError | TelegramError | OtherException

datatype exn = Exn (exn_class: exn_class) (args: "string list")

fun is_OSError :: "exn \<Rightarrow> bool" where
  "is_OSError (Exn c _) = (c = FileNotFoundError \<or> c = OSError)"

text \<open>
  A flat sequence of button labels, or a sequence of rows of labels
  (\<open>isinstance(self.choices[0], str)\<close> tells them apart).
\<close>
datatype buttons = Flat "string list" | Rows "string list list"

text \<open>
  Python values a handler can return, and the \<open>Answer\<close> objects among them. \<open>PObj r\<close> is
  any object that is not \<open>None\<close>, a \<open>str\<close>, an \<open>Answer\<close>, a list, a tuple or a generator;
  \<open>r\<close> is what \<open>str()\<close> gives for it. \<open>PGen xs\<close> is a generator that yields \<open>xs\<close>.
  The fields of \<open>Answer\<close> are those assigned in \<open>Answer.__init__\<close>, in its order.

  \<open>Answer\<close> objects are mutable and \<open>msg\<close> and \<open>_get_config\<close> assign to their fields, so
  a value refers to them by identity: \<open>PAnswer i a\<close> is a reference to the object with
  identity \<open>i\<close>, whose fields are \<open>a\<close> at the time the value is handed over. The same
  object may occur several times in one value, each time with the same identity.
\<close>
datatype pyval =
    PNone
  | PStr string
  | PObj string
  | PAnswer nat answer
  | PList "pyval list"
  | PTuple "pyval list"
  | PGen "pyval list"
and answer =
  Answer
    (msg_field: "string option")
    (format_content: "pyval list")
    (choices: "buttons option")
    (callback: "callable option")
    (keyboard: "buttons option")
    (media_type: "Media option")
    (media: "string option")
    (caption: "string option")
    (delay: int)

text \<open>\<open>Answer(msg, *format_content)\<close> with every keyword argument at its default.\<close>
definition Answer_init :: "string option \<Rightarrow> pyval list \<Rightarrow> answer" where
  "Answer_init m fc = Answer m fc None None None None None None 0"

type_synonym kwargs = "(string \<times> string) list"

section \<open>Class-level state of \<open>_Session\<close> and the configuration\<close>

text \<open>
  The three routing dictionaries, the default handler and the language tables are class
  attributes of \<open>_Session\<close>. A dictionary is an association list with distinct keys in
  insertion order; \<open>d[k] = v\<close> is \<open>AList.update k v\<close>, which replaces the value of a
  key that is present and appends the pair otherwise.
\<close>
record session_class =
  simple_routes :: "(string \<times> callable) list"
  parse_routes :: "(string \<times> callable) list"
  regex_routes :: "(string \<times> callable) list"
  default_answer :: callable
  language :: "(string \<times> (string \<times> string) list) list"

text \<open>The values read through \<open>_config_value\<close> by the code modelled here, with their keys.\<close>
record config =
  language_feature :: bool
  strict_mode :: bool
  mark_as_answer :: bool
  markup :: "string option"
  disable_web_preview :: bool
  disable_notification :: bool
  error_reply :: "string option"
  replace_query :: bool

section \<open>Registration: \<open>Marvin.answer\<close>\<close>

text \<open>
  The decorator returned by \<open>Marvin.answer(message, mode)\<close>, applied to \<open>func\<close>. The source
  has an \<open>if\<close> for \<open>Mode.REGEX\<close> followed by a separate \<open>if\<close>/\<open>else\<close> for \<open>Mode.PARSE\<close>;
  both statements run.
\<close>
definition Marvin_answer :: "string \<Rightarrow> Mode \<Rightarrow> callable \<Rightarrow> session_class \<Rightarrow> session_class" where
  "Marvin_answer message mode func C =
     (let C1 = (if mode = REGEX
                then C\<lparr>regex_routes := AList.update message func (regex_routes C)\<rparr>
                else C)
      in if mode = PARSE
         then C1\<lparr>parse_routes := AList.update message func (parse_routes C1)\<rparr>
         else C1\<lparr>simple_routes := AList.update message func (simple_routes C1)\<rparr>)"

text \<open>\<open>Marvin.default_answer(func)\<close>.\<close>
definition Marvin_default_answer :: "callable \<Rightarrow> session_class \<Rightarrow> session_class" where
  "Marvin_default_answer func C = C\<lparr>default_answer := func\<rparr>"

text \<open>The class attributes as the class body of \<open>_Session\<close> initialises them.\<close>
definition initial_class :: session_class where
  "initial_class =
     \<lparr>simple_routes = [], parse_routes = [], regex_routes = [],
      default_answer = Default_pass, language = []\<rparr>"

section \<open>The environment\<close>

text \<open>
  What the code calls but does not define: the user's callables, the transport
  (\<open>telepot\<close>), the file system, and the library functions \<open>str.format\<close>, \<open>str.lower\<close>,
  \<open>str()\<close> of containers, \<open>parse\<close> and \<open>re\<close>. They are parameters of the model.
\<close>

datatype reply_markup =
    InlineKeyboardMarkup "(string \<times> string) list list"
  | ReplyKeyboardMarkup "string list list" bool

datatype kwval =
    VStr "string option"
  | VBool bool
  | VNat "nat option"
  | VMarkup "reply_markup option"

text \<open>
  One call of a \<open>send...\<close> method of the sender: the media kind selects the method, the
  first argument is the text, the sticker id or the opened file, and the rest are the
  keyword arguments passed.
\<close>
datatype send_request = Send_request Media "string option" "(string \<times> kwval) list"

record env =
  invoke :: "callable \<Rightarrow> string list \<Rightarrow> kwargs \<Rightarrow> exn + pyval"
  send :: "send_request \<Rightarrow> exn + nat"
  file_exists :: "string \<Rightarrow> bool"
  format :: "string \<Rightarrow> pyval list \<Rightarrow> exn + string"
  lower :: "string \<Rightarrow> string"
  str_of :: "pyval \<Rightarrow> string"
  parse_match :: "string \<Rightarrow> string \<Rightarrow> kwargs option"
  regex_match :: "string \<Rightarrow> string \<Rightarrow> kwargs option"
  answer_callback_query :: "string \<Rightarrow> exn option"
  edit_message_text :: "nat \<times> nat \<Rightarrow> string \<Rightarrow> string option \<Rightarrow> exn option"

text \<open>\<open>str(v)\<close>: the string itself, \<open>'None'\<close>, or what the object's \<open>__str__\<close> gives.\<close>
fun py_str :: "env \<Rightarrow> pyval \<Rightarrow> string" where
  "py_str E (PStr s) = s"
| "py_str E PNone = ''None''"
| "py_str E (PObj r) = r"
| "py_str E v = str_of E v"

section \<open>Routing\<close>

text \<open>
  Modelled from the spec: \<open>ParsingDict\<close> and \<open>RegExDict\<close> of \<open>marvin.helper\<close>. A text is
  \<open>in\<close> the dictionary when one of its patterns matches it, and \<open>d[text]\<close> is the handler
  of the first such pattern, in insertion order, paired with the match, of which the
  caller reads the named captures.
\<close>
fun pattern_lookup ::
  "(string \<Rightarrow> string \<Rightarrow> kwargs option) \<Rightarrow> (string \<times> callable) list \<Rightarrow> string
     \<Rightarrow> (callable \<times> kwargs) option" where
  "pattern_lookup m [] text = None"
| "pattern_lookup m ((p, f) # rs) text =
     (case m p text of Some named \<Rightarrow> Some (f, named) | None \<Rightarrow> pattern_lookup m rs text)"

text \<open>
  The routing part of \<open>_Session.handle_text_message\<close> (the \<open>if\<close>/\<open>elif\<close> chain that binds
  \<open>func\<close> and \<open>kwargs\<close>).
\<close>
definition route :: "env \<Rightarrow> session_class \<Rightarrow> string \<Rightarrow> callable \<times> kwargs" where
  "route E C text =
     (case map_of (simple_routes C) text of
        Some func \<Rightarrow> (func, [])
      | None \<Rightarrow>
          (case pattern_lookup (parse_match E) (parse_routes C) text of
             Some (func, named) \<Rightarrow> (func, named)
           | None \<Rightarrow>
               (case pattern_lookup (regex_match E) (regex_routes C) text of
                  Some (func, named) \<Rightarrow> (func, named)
                | None \<Rightarrow> (default_answer C, []))))"

section \<open>The session and what it does to the outside\<close>

datatype level = INFO | WARNING | CRITICAL

text \<open>
  The observable effects, in the order in which they happen: a record written by the
  logger (its level only), a call of a user's callable with its positional and keyword
  arguments, a message accepted by the transport together with the message id it
  returned, and the two other transport calls of \<open>on_callback_query\<close>.
\<close>
datatype event =
    Logged level
  | Called callable "string list" kwargs
  | Sent send_request nat
  | AnswerCallbackQuery string
  | EditMessageText "nat \<times> nat" string "string option"

text \<open>
  The instance attributes of \<open>_Session\<close> that the code modelled here reads or writes,
  and the trace of effects. \<open>last_sent\<close> holds the answer as \<open>_send\<close> left it and what
  \<open>_send\<close> returned.
\<close>
record session =
  user_id :: nat
  query_callback :: "(nat \<times> callable) list"
  last_sent :: "(answer \<times> nat option) option"
  trace :: "event list"

text \<open>
  The task context (\<open>aiotask_context\<close>): the language code of the user and the id of the
  message being answered, as \<open>handle_text_message\<close> stores them.
\<close>
record ctx =
  language_code :: string
  message_id :: nat

definition log :: "level \<Rightarrow> session \<Rightarrow> session" where
  "log l s = s\<lparr>trace := trace s @ [Logged l]\<rparr>"

definition emit :: "event list \<Rightarrow> session \<Rightarrow> session" where
  "emit evs s = s\<lparr>trace := trace s @ evs\<rparr>"

section \<open>Field assignment on \<open>Answer\<close> objects\<close>

definition set_msg_field :: "string option \<Rightarrow> answer \<Rightarrow> answer" where
  "set_msg_field v a =
     (case a of Answer m fc ch cb kb mt me ca d \<Rightarrow> Answer v fc ch cb kb mt me ca d)"

definition set_choices :: "buttons option \<Rightarrow> answer \<Rightarrow> answer" where
  "set_choices v a =
     (case a of Answer m fc ch cb kb mt me ca d \<Rightarrow> Answer m fc v cb kb mt me ca d)"

definition set_media_type :: "Media option \<Rightarrow> answer \<Rightarrow> answer" where
  "set_media_type v a =
     (case a of Answer m fc ch cb kb mt me ca d \<Rightarrow> Answer m fc ch cb kb v me ca d)"

definition set_media :: "string option \<Rightarrow> answer \<Rightarrow> answer" where
  "set_media v a =
     (case a of Answer m fc ch cb kb mt me ca d \<Rightarrow> Answer m fc ch cb kb mt v ca d)"

definition set_caption :: "string option \<Rightarrow> answer \<Rightarrow> answer" where
  "set_caption v a =
     (case a of Answer m fc ch cb kb mt me ca d \<Rightarrow> Answer m fc ch cb kb mt me v d)"

section \<open>Localization: \<open>Answer._apply_language\<close>\<close>

text \<open>\<open>language_code.split('_')[0].lower()\<close>\<close>
definition lang_code_of :: "env \<Rightarrow> string \<Rightarrow> string" where
  "lang_code_of E lc = lower E (takeWhile (\<lambda>c. c \<noteq> CHR ''_'') lc)"

text \<open>
  \<open>_Session.language[code][self._msg]\<close>: either subscript raises \<open>KeyError\<close> on a missing
  key; \<open>self._msg\<close> may be \<open>None\<close>, which is no key of a table loaded from a file.
\<close>
definition language_lookup :: "session_class \<Rightarrow> string \<Rightarrow> string option \<Rightarrow> exn + string" where
  "language_lookup C code key =
     (case map_of (language C) code of
        None \<Rightarrow> Inl (Exn KeyError [code])
      | Some table \<Rightarrow>
          (case key of
             None \<Rightarrow> Inl (Exn KeyError [''None''])
           | Some k \<Rightarrow>
               (case map_of table k of
                  None \<Rightarrow> Inl (Exn KeyError [k])
                | Some template \<Rightarrow> Inr template)))"

text \<open>The last statements of \<open>_apply_language\<close>: \<open>answer.format(*self.format_content)\<close>.\<close>
definition apply_formatting :: "env \<Rightarrow> answer \<Rightarrow> string \<Rightarrow> exn + string option" where
  "apply_formatting E a template =
     (if length (format_content a) > 0
      then (case format E template (format_content a) of
              Inl e \<Rightarrow> Inl e
            | Inr text \<Rightarrow> Inr (Some text))
      else Inr (Some template))"

definition apply_language ::
  "env \<Rightarrow> config \<Rightarrow> session_class \<Rightarrow> ctx \<Rightarrow> answer \<Rightarrow> event list \<times> (exn + string option)" where
  "apply_language E cfg C cx a =
     (let lang_code = lang_code_of E (language_code cx)
      in case language_lookup C lang_code (msg_field a) of
           Inr template \<Rightarrow> ([], apply_formatting E a template)
         | Inl _ \<Rightarrow>
             (case language_lookup C ''default'' (msg_field a) of
                Inr template \<Rightarrow> ([], apply_formatting E a template)
              | Inl e \<Rightarrow>
                  if strict_mode cfg then ([Logged CRITICAL], Inl e)
                  else ([], Inr (msg_field a))))"

section \<open>The property \<open>Answer.msg\<close>\<close>

definition media_commands :: "(string \<times> Media) list" where
  "media_commands =
     [(''sticker'', STICKER), (''voice'', VOICE), (''audio'', AUDIO),
      (''photo'', PHOTO), (''video'', VIDEO), (''document'', DOCUMENT)]"

text \<open>\<open>media_commands.get(command, Media.TEXT)\<close>\<close>
definition media_of_command :: "string \<Rightarrow> Media" where
  "media_of_command command =
     (case map_of media_commands command of None \<Rightarrow> TEXT | Some m \<Rightarrow> m)"

text \<open>\<open>s.split(c, 1)\<close> for a string that contains \<open>c\<close>: the parts before and after the first \<open>c\<close>.\<close>
definition split_first :: "char \<Rightarrow> string \<Rightarrow> string \<times> string" where
  "split_first c s = (takeWhile (\<lambda>x. x \<noteq> c) s, tl (dropWhile (\<lambda>x. x \<noteq> c) s))"

text \<open>
  The branch of \<open>msg\<close> taken when \<open>media_type\<close> is \<open>None\<close>, on the retrieved message
  \<open>text\<close>; it returns the changed object and the message.
\<close>
definition detect_media :: "answer \<Rightarrow> string \<Rightarrow> answer \<times> string option" where
  "detect_media a text =
     (if CHR '':'' \<in> set text
      then (let (command, payload) = split_first (CHR '':'') text
            in if command \<in> set [''sticker'', ''audio'', ''voice'', ''document'', ''photo'', ''video'']
               then (let a1 = (if CHR '';'' \<in> set payload
                               then (let (m, c) = split_first (CHR '';'') payload
                                     in set_caption (Some c) (set_media (Some m) a))
                               else set_media (Some payload) a)
                     in (set_media_type (Some (media_of_command command)) (set_msg_field None a1),
                         None))
               else (set_media_type (Some (media_of_command command)) a, Some text))
      else (set_media_type (Some (media_of_command [])) a, Some text))"

text \<open>
  \<open>msg\<close> returns the object after its assignments, the log records written on the way,
  and the message or the exception raised. \<open>':' in msg\<close> raises \<open>TypeError\<close> when the
  message is \<open>None\<close>.
\<close>
definition msg ::
  "env \<Rightarrow> config \<Rightarrow> session_class \<Rightarrow> ctx \<Rightarrow> answer
     \<Rightarrow> answer \<times> event list \<times> (exn + string option)" where
  "msg E cfg C cx a =
     (let (evs, r) = (if language_feature cfg then apply_language E cfg C cx a
                      else ([], Inr (msg_field a)))
      in case r of
           Inl e \<Rightarrow> (a, evs, Inl e)
         | Inr m \<Rightarrow>
             if media_type a = None
             then (case m of
                     None \<Rightarrow> (a, evs, Inl (Exn TypeError [''argument of type NoneType is not iterable'']))
                   | Some text \<Rightarrow> (let (a1, m1) = detect_media a text in (a1, evs, Inr m1)))
             else (a, evs, Inr m))"

section \<open>Keyboards and send options: \<open>Answer._get_config\<close>\<close>

text \<open>
  \<open>[[y for y in xs[x * 2:(x + 1) * 2]] for x in range(int(math.ceil(len(xs) / 2)))]\<close>.
  The slice \<open>xs[i:j]\<close> is \<open>take (j - i) (drop i xs)\<close>, and the ceiling of half of a
  natural number \<open>n\<close> is \<open>(n + 1) div 2\<close>.
\<close>
definition pair_rows :: "'a list \<Rightarrow> 'a list list" where
  "pair_rows xs =
     map (\<lambda>x. take ((x + 1) * 2 - x * 2) (drop (x * 2) xs)) [0 ..< (length xs + 1) div 2]"

text \<open>The dictionary returned at the end of \<open>_get_config\<close>, in its order.\<close>
definition config_dict :: "config \<Rightarrow> ctx \<Rightarrow> answer \<Rightarrow> reply_markup option \<Rightarrow> (string \<times> kwval) list" where
  "config_dict cfg cx a kb =
     [(''parse_mode'', VStr (markup cfg)),
      (''reply_to_message_id'', VNat (if mark_as_answer cfg then Some (message_id cx) else None)),
      (''disable_web_page_preview'', VBool (disable_web_preview cfg)),
      (''disable_notification'', VBool (disable_notification cfg)),
      (''reply_markup'', VMarkup kb),
      (''caption'', VStr (caption a))]"

text \<open>
  \<open>_get_config\<close> returns the object after its assignment to \<open>self.choices\<close> and the
  dictionary, or the exception raised. Subscripting an empty sequence with \<open>[0]\<close> raises
  \<open>IndexError\<close>. In the \<open>keyboard\<close> branch \<open>self.choices\<close> is \<open>None\<close>, so for a flat
  keyboard the source's \<open>len(self.choices)\<close> raises \<open>TypeError\<close>.
\<close>
definition get_config :: "config \<Rightarrow> ctx \<Rightarrow> answer \<Rightarrow> answer \<times> (exn + (string \<times> kwval) list)" where
  "get_config cfg cx a =
     (case choices a of
        Some ch \<Rightarrow>
          (case ch of
             Flat [] \<Rightarrow> (a, Inl (Exn IndexError [''list index out of range'']))
           | Flat (c # cs) \<Rightarrow>
               (let rows = pair_rows (c # cs);
                    a1 = set_choices (Some (Rows rows)) a
                in (a1, Inr (config_dict cfg cx a1
                       (Some (InlineKeyboardMarkup (map (map (\<lambda>text. (text, text))) rows))))))
           | Rows [] \<Rightarrow> (a, Inl (Exn IndexError [''list index out of range'']))
           | Rows (r # rs) \<Rightarrow>
               (a, Inr (config_dict cfg cx a
                       (Some (InlineKeyboardMarkup (map (map (\<lambda>text. (text, text))) (r # rs)))))))
      | None \<Rightarrow>
          (case keyboard a of
             Some kb \<Rightarrow>
               (case kb of
                  Flat [] \<Rightarrow> (a, Inl (Exn IndexError [''list index out of range'']))
                | Flat (k # ks) \<Rightarrow> (a, Inl (Exn TypeError [''object of type NoneType has no len()'']))
                | Rows [] \<Rightarrow> (a, Inl (Exn IndexError [''list index out of range'']))
                | Rows (r # rs) \<Rightarrow>
                    (a, Inr (config_dict cfg cx a (Some (ReplyKeyboardMarkup (r # rs) True)))))
           | None \<Rightarrow> (a, Inr (config_dict cfg cx a None))))"

section \<open>Sending: \<open>Answer._send\<close>\<close>

text \<open>The keyword names each \<open>send...\<close> call keeps from the dictionary.\<close>
fun allowed_keys :: "Media \<Rightarrow> string list" where
  "allowed_keys TEXT =
     [''parse_mode'', ''disable_web_page_preview'', ''disable_notification'',
      ''reply_to_message_id'', ''reply_markup'']"
| "allowed_keys STICKER = [''disable_notification'', ''reply_to_message_id'', ''reply_markup'']"
| "allowed_keys VOICE =
     [''caption'', ''parse_mode'', ''duration'', ''disable_notification'',
      ''reply_to_message_id'', ''reply_markup'']"
| "allowed_keys AUDIO =
     [''caption'', ''parse_mode'', ''duration'', ''performer'', ''title'',
      ''disable_notification'', ''reply_to_message_id'', ''reply_markup'']"
| "allowed_keys PHOTO =
     [''caption'', ''parse_mode'', ''disable_notification'', ''reply_to_message_id'',
      ''reply_markup'']"
| "allowed_keys VIDEO =
     [''duration'', ''width'', ''height'', ''caption'', ''parse_mode'', ''supports_streaming'',
      ''disable_notification'', ''reply_to_message_id'', ''reply_markup'']"
| "allowed_keys DOCUMENT =
     [''caption'', ''parse_mode'', ''disable_notification'', ''reply_to_message_id'',
      ''reply_markup'']"

text \<open>\<open>{key: kwargs[key] for key in kwargs if key in (...)}\<close>\<close>
definition keep_keys :: "Media \<Rightarrow> (string \<times> kwval) list \<Rightarrow> (string \<times> kwval) list" where
  "keep_keys k kw = filter (\<lambda>(key, v). key \<in> set (allowed_keys k)) kw"

text \<open>
  The call of the transport and its record in the trace. For every kind but text and
  sticker the source first evaluates \<open>open(self.media, "rb")\<close>, which raises \<open>TypeError\<close>
  for \<open>None\<close> and \<open>FileNotFoundError\<close> for a missing file.
\<close>
definition transport_send :: "env \<Rightarrow> send_request \<Rightarrow> event list \<times> (exn + nat option)" where
  "transport_send E req =
     (case send E req of
        Inl e \<Rightarrow> ([], Inl e)
      | Inr mid \<Rightarrow> ([Sent req mid], Inr (Some mid)))"

definition send_by_kind ::
  "env \<Rightarrow> Media \<Rightarrow> string option \<Rightarrow> answer \<Rightarrow> (string \<times> kwval) list
     \<Rightarrow> event list \<times> (exn + nat option)" where
  "send_by_kind E k m a kw =
     (if k = TEXT then transport_send E (Send_request TEXT m (keep_keys TEXT kw))
      else if k = STICKER then transport_send E (Send_request STICKER (media a) (keep_keys STICKER kw))
      else (case media a of
              None \<Rightarrow> ([], Inl (Exn TypeError [''expected str, bytes or os.PathLike object'']))
            | Some path \<Rightarrow>
                if file_exists E path
                then transport_send E (Send_request k (Some path) (keep_keys k kw))
                else ([], Inl (Exn FileNotFoundError [''2'', ''No such file or directory'']))))"

text \<open>
  \<open>_send\<close> returns the object as the calls of \<open>msg\<close> and \<open>_get_config\<close> left it, the
  effects, and what the transport returned (\<open>None\<close> when no branch of the \<open>if\<close>/\<open>elif\<close>
  chain applies) or the exception raised.
\<close>
definition Answer_send ::
  "env \<Rightarrow> config \<Rightarrow> session_class \<Rightarrow> ctx \<Rightarrow> answer
     \<Rightarrow> answer \<times> event list \<times> (exn + nat option)" where
  "Answer_send E cfg C cx a =
     (case msg E cfg C cx a of
        (a1, evs, Inl e) \<Rightarrow> (a1, evs, Inl e)
      | (a1, evs, Inr m) \<Rightarrow>
          (case get_config cfg cx a1 of
             (a2, Inl e) \<Rightarrow> (a2, evs, Inl e)
           | (a2, Inr kw) \<Rightarrow>
               (case media_type a2 of
                  None \<Rightarrow> (a2, evs, Inr None)
                | Some k \<Rightarrow>
                    (let (evs2, r) = send_by_kind E k m a2 kw in (a2, evs @ evs2, r)))))"

section \<open>\<open>_Session.handle_answer\<close>\<close>

text \<open>
  The state an object has when the loop reaches it: the one an earlier iteration left it
  in, if the loop has sent this object before, else the one it came with.
\<close>
definition current :: "(nat \<times> answer) list \<Rightarrow> nat \<Rightarrow> answer \<Rightarrow> answer" where
  "current objs i a = (case map_of objs i of None \<Rightarrow> a | Some a' \<Rightarrow> a')"

text \<open>
  The loop over the answers. \<open>objs\<close> holds, by identity, the objects that earlier
  iterations have sent, as \<open>_send\<close> left them; the caller starts the loop with none. An
  element that is not an \<open>Answer\<close> has no \<open>_send\<close> (\<open>AttributeError\<close>);
  \<open>sent['message_id']\<close> raises \<open>TypeError\<close> when \<open>sent\<close> is \<open>None\<close>. The result is the
  session and the exception that leaves the loop, if any.
\<close>
fun handle_answer ::
  "env \<Rightarrow> config \<Rightarrow> session_class \<Rightarrow> ctx \<Rightarrow> (nat \<times> answer) list \<Rightarrow> pyval list \<Rightarrow> session
     \<Rightarrow> session \<times> exn option" where
  "handle_answer E cfg C cx objs [] s = (s, None)"
| "handle_answer E cfg C cx objs (v # vs) s =
     (case v of
        PAnswer i a \<Rightarrow>
          (case Answer_send E cfg C cx (current objs i a) of
             (a1, evs, Inl e) \<Rightarrow> (emit evs s, Some e)
           | (a1, evs, Inr sent) \<Rightarrow>
               (let s1 = (emit evs s)\<lparr>last_sent := Some (a1, sent)\<rparr>;
                    objs1 = AList.update i a1 objs
                in case callback a1 of
                     None \<Rightarrow> handle_answer E cfg C cx objs1 vs s1
                   | Some cb \<Rightarrow>
                       (case sent of
                          None \<Rightarrow> (s1, Some (Exn TypeError [''NoneType object is not subscriptable'']))
                        | Some mid \<Rightarrow>
                            handle_answer E cfg C cx objs1 vs
                              (s1\<lparr>query_callback := AList.update mid cb (query_callback s1)\<rparr>))))
      | _ \<Rightarrow> (s, Some (Exn AttributeError [''object has no attribute _send''])))"

section \<open>\<open>_Session.prepare_answer\<close> and \<open>_Session.handle_error\<close>\<close>

text \<open>
  The conversion at the head of the \<open>try\<close> block: a value that is no \<open>Answer\<close>, list,
  tuple or generator becomes \<open>Answer(str(answer))\<close>; a list or tuple whose element
  \<open>[0]\<close> is no \<open>Answer\<close> becomes \<open>Answer(str(answer[0]), *answer[1:])\<close>, and \<open>answer[0]\<close>
  raises \<open>IndexError\<close> on an empty one. The object constructed here is the only one of
  its batch, so its identity plays no part; it is given the identity 0.
\<close>
definition convert_sequence :: "env \<Rightarrow> pyval \<Rightarrow> pyval list \<Rightarrow> exn + pyval" where
  "convert_sequence E answer xs =
     (case xs of
        [] \<Rightarrow> Inl (Exn IndexError [''list index out of range''])
      | PAnswer i a # rest \<Rightarrow> Inr answer
      | x # rest \<Rightarrow> Inr (PAnswer 0 (Answer_init (Some (py_str E x)) rest)))"

definition convert_answer :: "env \<Rightarrow> pyval \<Rightarrow> exn + pyval" where
  "convert_answer E answer =
     (case answer of
        PAnswer i a \<Rightarrow> Inr answer
      | PList xs \<Rightarrow> convert_sequence E answer xs
      | PTuple xs \<Rightarrow> convert_sequence E answer xs
      | PGen xs \<Rightarrow> Inr answer
      | _ \<Rightarrow> Inr (PAnswer 0 (Answer_init (Some (py_str E answer)) [])))"

text \<open>What is handed to \<open>handle_answer\<close>: \<open>(answer,)\<close> for an \<open>Answer\<close>, else the iterable.\<close>
definition answers_of :: "pyval \<Rightarrow> pyval list" where
  "answers_of v =
     (case v of
        PAnswer i a \<Rightarrow> [PAnswer i a]
      | PList xs \<Rightarrow> xs
      | PTuple xs \<Rightarrow> xs
      | PGen xs \<Rightarrow> xs
      | _ \<Rightarrow> [])"

text \<open>The \<open>try\<close> block of \<open>prepare_answer\<close> for an answer that is not \<open>None\<close>.\<close>
definition try_block ::
  "env \<Rightarrow> config \<Rightarrow> session_class \<Rightarrow> ctx \<Rightarrow> pyval \<Rightarrow> session \<Rightarrow> session \<times> exn option" where
  "try_block E cfg C cx answer s =
     (case convert_answer E answer of
        Inl e \<Rightarrow> (s, Some e)
      | Inr v \<Rightarrow> handle_answer E cfg C cx [] (answers_of v) s)"

text \<open>
  The message picked in the \<open>except\<close> clauses: \<open>e.args[1]\<close> for an \<open>OSError\<close>, \<open>e.args[0]\<close>
  otherwise; the subscript raises \<open>IndexError\<close> when the tuple is too short. The clause
  for \<open>FileNotFoundError\<close> reads \<open>e.filename\<close> and no element of \<open>e.args\<close>; the clause
  for \<open>TelegramError\<close> reads \<open>e.args[0]\<close>.
\<close>
definition error_message :: "exn \<Rightarrow> exn + string" where
  "error_message e =
     (if is_OSError e
      then (if length (args e) > 1 then Inr (args e ! 1)
            else Inl (Exn IndexError [''tuple index out of range'']))
      else (case args e of
              [] \<Rightarrow> Inl (Exn IndexError [''tuple index out of range''])
            | m # _ \<Rightarrow> Inr m))"

definition clause_message :: "exn \<Rightarrow> exn + string" where
  "clause_message e =
     (if exn_class e = FileNotFoundError then Inr []
      else if exn_class e = TelegramError
      then (case args e of
              [] \<Rightarrow> Inl (Exn IndexError [''tuple index out of range''])
            | m # _ \<Rightarrow> Inr m)
      else error_message e)"

text \<open>
  \<open>prepare_answer\<close> calls \<open>handle_error\<close> in its \<open>except\<close> clauses, and \<open>handle_error\<close> calls
  \<open>prepare_answer\<close> on the configured error reply, so the recursion need not end; the
  first argument bounds the depth of nested calls, and \<open>None\<close> is the result when the
  bound is reached. Otherwise the result is the session and the exception that leaves
  \<open>prepare_answer\<close>, if any.
\<close>
fun prepare_answer ::
  "nat \<Rightarrow> env \<Rightarrow> config \<Rightarrow> session_class \<Rightarrow> ctx \<Rightarrow> pyval \<Rightarrow> string \<Rightarrow> session
     \<Rightarrow> (session \<times> exn option) option" where
  "prepare_answer 0 E cfg C cx answer lg s = None"
| "prepare_answer (Suc n) E cfg C cx answer lg s =
     (case answer of
        PNone \<Rightarrow> Some (log INFO s, None)
      | _ \<Rightarrow>
          (case try_block E cfg C cx answer s of
             (s1, None) \<Rightarrow> Some (if length lg > 0 then log INFO s1 else s1, None)
           | (s1, Some e) \<Rightarrow>
               (case clause_message e of
                  Inl e' \<Rightarrow> Some (s1, Some e')
                | Inr m \<Rightarrow>
                    (case error_reply cfg of
                       None \<Rightarrow> Some (log WARNING s1, None)
                     | Some reply \<Rightarrow>
                         prepare_answer n E cfg C cx (PAnswer 0 (Answer_init (Some reply) [])) []
                           (log WARNING s1)))))"

text \<open>\<open>handle_error\<close>, with the depth left for its call of \<open>prepare_answer\<close>.\<close>
definition handle_error ::
  "nat \<Rightarrow> env \<Rightarrow> config \<Rightarrow> session_class \<Rightarrow> ctx \<Rightarrow> session \<Rightarrow> (session \<times> exn option) option" where
  "handle_error n E cfg C cx s =
     (case error_reply cfg of
        None \<Rightarrow> Some (s, None)
      | Some reply \<Rightarrow> prepare_answer n E cfg C cx (PAnswer 0 (Answer_init (Some reply) [])) [] s)"

section \<open>\<open>_Session.handle_text_message\<close>\<close>

text \<open>A call \<open>func(*args, **kwargs)\<close>; the built-in default handler returns \<open>None\<close>.\<close>
definition call :: "env \<Rightarrow> callable \<Rightarrow> string list \<Rightarrow> kwargs \<Rightarrow> exn + pyval" where
  "call E func as kw = (case func of Default_pass \<Rightarrow> Inr PNone | Fn i \<Rightarrow> invoke E func as kw)"

text \<open>
  The context \<open>cx\<close> is what the first statements store for the message; \<open>text\<close> is
  \<open>msg['text']\<close>. The log line built from the user and the text is never empty.
\<close>
definition handle_text_message ::
  "nat \<Rightarrow> env \<Rightarrow> config \<Rightarrow> session_class \<Rightarrow> ctx \<Rightarrow> string \<Rightarrow> session
     \<Rightarrow> (session \<times> exn option) option" where
  "handle_text_message n E cfg C cx text s =
     (let lg = ''Message by user: '' @ text;
          (func, kw) = route E C text;
          s0 = emit [Called func [] kw] s
      in case call E func [] kw of
           Inl e \<Rightarrow>
             (case error_message e of
                Inl e' \<Rightarrow> Some (s0, Some e')
              | Inr m \<Rightarrow> handle_error n E cfg C cx (log WARNING s0))
         | Inr answer \<Rightarrow> prepare_answer n E cfg C cx answer lg s0)"

section \<open>\<open>_Session.on_callback_query\<close>\<close>

record query =
  q_id :: string
  q_message_id :: nat
  q_data :: string

text \<open>
  The \<open>editMessageText\<close> call with its arguments evaluated in order: \<open>self.last_sent[0]\<close>
  raises \<open>TypeError\<close> when nothing was sent yet, and reading \<open>msg\<close> of the last answer runs
  the property again on that object.
\<close>
definition replace_query_step ::
  "env \<Rightarrow> config \<Rightarrow> session_class \<Rightarrow> ctx \<Rightarrow> query \<Rightarrow> session \<Rightarrow> session \<times> exn option" where
  "replace_query_step E cfg C cx q s =
     (case last_sent s of
        None \<Rightarrow> (s, Some (Exn TypeError [''NoneType object is not subscriptable'']))
      | Some (a, sent) \<Rightarrow>
          (case msg E cfg C cx a of
             (a1, evs, Inl e) \<Rightarrow> ((emit evs s)\<lparr>last_sent := Some (a1, sent)\<rparr>, Some e)
           | (a1, evs, Inr m) \<Rightarrow>
               (let shown = (case m of None \<Rightarrow> ''None'' | Some t \<Rightarrow> t);
                    text = (if markup cfg = Some ''HTML''
                            then shown @ [CHR 0x0A] @ ''<b>'' @ q_data q @ ''</b>''
                            else shown @ [CHR 0x0A] @ ''**'' @ q_data q @ ''**'');
                    target = (user_id s, q_message_id q);
                    s1 = (emit (evs @ [EditMessageText target text (markup cfg)]) s)
                           \<lparr>last_sent := Some (a1, sent)\<rparr>
                in (s1, edit_message_text E target text (markup cfg)))))"

definition on_callback_query ::
  "nat \<Rightarrow> env \<Rightarrow> config \<Rightarrow> session_class \<Rightarrow> ctx \<Rightarrow> query \<Rightarrow> session
     \<Rightarrow> (session \<times> exn option) option" where
  "on_callback_query n E cfg C cx q s =
     (let func = map_of (query_callback s) (q_message_id q);
          s0 = s\<lparr>query_callback := AList.delete (q_message_id q) (query_callback s)\<rparr>;
          (s1, r) = (case func of
                       None \<Rightarrow> (s0, Inr PNone)
                     | Some f \<Rightarrow> (emit [Called f [q_data q] []] s0, call E f [q_data q] []))
      in case r of
           Inl e \<Rightarrow> Some (s1, Some e)
         | Inr answer \<Rightarrow>
             (let s2 = emit [AnswerCallbackQuery (q_id q)] s1
              in case answer_callback_query E (q_id q) of
                   Some e \<Rightarrow> Some (s2, Some e)
                 | None \<Rightarrow>
                     (case (if replace_query cfg then replace_query_step E cfg C cx q s2
                            else (s2, None)) of
                        (s3, Some e) \<Rightarrow> Some (s3, Some e)
                      | (s3, None) \<Rightarrow>
                          (case answer of
                             PNone \<Rightarrow> Some (s3, None)
                           | _ \<Rightarrow> prepare_answer n E cfg C cx answer [] s3))))"

section \<open>Observations on traces, and sequences of callback queries\<close>

fun is_Called :: "event \<Rightarrow> bool" where
  "is_Called (Called f as kw) = True"
| "is_Called ev = False"

fun is_Sent :: "event \<Rightarrow> bool" where
  "is_Sent (Sent req mid) = True"
| "is_Sent ev = False"

text \<open>The calls of user callables and the accepted sends recorded in a session.\<close>
definition calls :: "session \<Rightarrow> event list" where
  "calls s = filter is_Called (trace s)"

definition sends :: "session \<Rightarrow> event list" where
  "sends s = filter is_Sent (trace s)"

text \<open>\<open>isinstance(v, Answer)\<close>\<close>
fun is_Answer :: "pyval \<Rightarrow> bool" where
  "is_Answer (PAnswer i a) = True"
| "is_Answer v = False"

text \<open>
  The transport delivers callback queries one after another to \<open>on_callback_query\<close>; an
  exception that leaves one call does not stop the delivery of the next query.
\<close>
fun run_callback_queries ::
  "nat \<Rightarrow> env \<Rightarrow> config \<Rightarrow> session_class \<Rightarrow> ctx \<Rightarrow> query list \<Rightarrow> session \<Rightarrow> session option" where
  "run_callback_queries n E cfg C cx [] s = Some s"
| "run_callback_queries n E cfg C cx (q # qs) s =
     (case on_callback_query n E cfg C cx q s of
        None \<Rightarrow> None
      | Some (s1, r) \<Rightarrow> run_callback_queries n E cfg C cx qs s1)"

section \<open>A concrete bot for evaluating the model\<close>

text \<open>
  \<open>str.lower\<close> as it acts on ASCII strings: the letters \<open>A\<close> to \<open>Z\<close> are lowered, every
  other ASCII character is left as it is.
\<close>
definition ascii_lower_char :: "char \<Rightarrow> char" where
  "ascii_lower_char c =
     (let n = (of_char c :: nat) in if 65 \<le> n \<and> n \<le> 90 then char_of (n + 32) else c)"

definition ascii_lower :: "string \<Rightarrow> string" where
  "ascii_lower s = map ascii_lower_char s"

text \<open>
  \<open>str.format\<close> on templates whose only replacement fields are \<open>{}\<close>, with arguments
  that are strings: each field takes the next argument; \<open>IndexError\<close> when they run out.
\<close>
fun demo_str :: "pyval \<Rightarrow> string" where
  "demo_str (PStr s) = s"
| "demo_str v = ''object''"

fun brace_format :: "string \<Rightarrow> pyval list \<Rightarrow> exn + string" where
  "brace_format (c # d # cs) as =
     (if c = CHR ''{'' \<and> d = CHR ''}''
      then (case as of
              [] \<Rightarrow> Inl (Exn IndexError [''Replacement index out of range''])
            | a # as' \<Rightarrow>
                (case brace_format cs as' of
                   Inl e \<Rightarrow> Inl e
                 | Inr r \<Rightarrow> Inr (demo_str a @ r)))
      else (case brace_format (d # cs) as of
              Inl e \<Rightarrow> Inl e
            | Inr r \<Rightarrow> Inr (c # r)))"
| "brace_format cs as = Inr cs"

text \<open>
  Three callables: \<open>Fn 1\<close> returns the string \<open>'bye'\<close>, \<open>Fn 2\<close> raises an exception
  constructed without arguments (as \<open>raise ValueError()\<close> does), \<open>Fn 3\<close> raises one with
  a message; every other callable returns \<open>None\<close>. The transport accepts every message
  and answers with message id 7. Strings are lowered as ASCII strings. The parse pattern \<open>'/{cmd}'\<close> and the regular
  expression \<open>'/(?P<rest>.*)'\<close> match the texts that begin with a slash.
\<close>
definition demo_invoke :: "callable \<Rightarrow> string list \<Rightarrow> kwargs \<Rightarrow> exn + pyval" where
  "demo_invoke f as kw =
     (if f = Fn 1 then Inr (PStr ''bye'')
      else if f = Fn 2 then Inl (Exn OtherException [])
      else if f = Fn 3 then Inl (Exn OtherException [''boom''])
      else Inr PNone)"

definition demo_parse :: "string \<Rightarrow> string \<Rightarrow> kwargs option" where
  "demo_parse p text =
     (if p = ''/{cmd}'' \<and> take 1 text = ''/'' then Some [(''cmd'', drop 1 text)] else None)"

definition demo_regex :: "string \<Rightarrow> string \<Rightarrow> kwargs option" where
  "demo_regex p text =
     (if p = ''/(?P<rest>.*)'' \<and> take 1 text = ''/'' then Some [(''rest'', drop 1 text)] else None)"

definition demo_env :: env where
  "demo_env =
     \<lparr>invoke = demo_invoke,
      send = (\<lambda>req. Inr 7),
      file_exists = (\<lambda>path. True),
      format = brace_format,
      lower = ascii_lower,
      str_of = (\<lambda>v. ''object''),
      parse_match = demo_parse,
      regex_match = demo_regex,
      answer_callback_query = (\<lambda>i. None),
      edit_message_text = (\<lambda>target text mode. None)\<rparr>"

text \<open>The defaults of \<open>Answer._load_defaults\<close> and of the other \<open>_config_value\<close> calls.\<close>
definition demo_config :: config where
  "demo_config =
     \<lparr>language_feature = False, strict_mode = False, mark_as_answer = False, markup = None,
      disable_web_preview = False, disable_notification = False, error_reply = None,
      replace_query = True\<rparr>"

text \<open>The language tables \<open>{"de": {"hi": "Hallo"}, "default": {"hi": "Hi"}}\<close> and one route per table.\<close>
definition demo_class :: session_class where
  "demo_class =
     \<lparr>simple_routes = [(''/bye'', Fn 1), (''/boom'', Fn 2), (''/fail'', Fn 3)],
      parse_routes = [(''/{cmd}'', Fn 4)],
      regex_routes = [(''/(?P<rest>.*)'', Fn 5)],
      default_answer = Default_pass,
      language = [(''de'', [(''hi'', ''Hallo'')]), (''default'', [(''hi'', ''Hi'')])]\<rparr>"

definition demo_ctx :: ctx where
  "demo_ctx = \<lparr>language_code = ''de'', message_id = 1\<rparr>"

definition demo_session :: session where
  "demo_session = \<lparr>user_id = 5, query_callback = [], last_sent = None, trace = []\<rparr>"

definition demo_query :: query where
  "demo_query = \<lparr>q_id = ''q1'', q_message_id = 3, q_data = ''yes''\<rparr>"

text \<open>What a run left in the trace, and the exception that left it.\<close>
definition result_trace :: "(session \<times> exn option) option \<Rightarrow> event list option" where
  "result_trace res = map_option (\<lambda>(s, e). trace s) res"

definition result_exn :: "(session \<times> exn option) option \<Rightarrow> exn option option" where
  "result_exn res = map_option (\<lambda>(s, e). e) res"

text \<open>The \<open>sendMessage\<close> call that a plain text answer makes under \<open>demo_config\<close>.\<close>
definition demo_text_request :: "string \<Rightarrow> send_request" where
  "demo_text_request t =
     Send_request TEXT (Some t)
       [(''parse_mode'', VStr None), (''reply_to_message_id'', VNat None),
        (''disable_web_page_preview'', VBool False), (''disable_notification'', VBool False),
        (''reply_markup'', VMarkup None)]"

section \<open>Facts about the model: fields, dictionaries, string splitting\<close>

lemma answer_field_simps [simp]:
  "msg_field (set_msg_field m a) = m"
  "format_content (set_msg_field m a) = format_content a"
  "choices (set_msg_field m a) = choices a"
  "callback (set_msg_field m a) = callback a"
  "keyboard (set_msg_field m a) = keyboard a"
  "media_type (set_msg_field m a) = media_type a"
  "media (set_msg_field m a) = media a"
  "caption (set_msg_field m a) = caption a"
  "delay (set_msg_field m a) = delay a"
  "msg_field (set_choices ch a) = msg_field a"
  "format_content (set_choices ch a) = format_content a"
  "choices (set_choices ch a) = ch"
  "callback (set_choices ch a) = callback a"
  "keyboard (set_choices ch a) = keyboard a"
  "media_type (set_choices ch a) = media_type a"
  "media (set_choices ch a) = media a"
  "caption (set_choices ch a) = caption a"
  "delay (set_choices ch a) = delay a"
  "msg_field (set_media_type k a) = msg_field a"
  "format_content (set_media_type k a) = format_content a"
  "choices (set_media_type k a) = choices a"
  "callback (set_media_type k a) = callback a"
  "keyboard (set_media_type k a) = keyboard a"
  "media_type (set_media_type k a) = k"
  "media (set_media_type k a) = media a"
  "caption (set_media_type k a) = caption a"
  "delay (set_media_type k a) = delay a"
  "msg_field (set_media r a) = msg_field a"
  "format_content (set_media r a) = format_content a"
  "choices (set_media r a) = choices a"
  "callback (set_media r a) = callback a"
  "keyboard (set_media r a) = keyboard a"
  "media_type (set_media r a) = media_type a"
  "media (set_media r a) = r"
  "caption (set_media r a) = caption a"
  "delay (set_media r a) = delay a"
  "msg_field (set_caption c a) = msg_field a"
  "format_content (set_caption c a) = format_content a"
  "choices (set_caption c a) = choices a"
  "callback (set_caption c a) = callback a"
  "keyboard (set_caption c a) = keyboard a"
  "media_type (set_caption c a) = media_type a"
  "media (set_caption c a) = media a"
  "caption (set_caption c a) = c"
  "delay (set_caption c a) = delay a"
  by (cases a; simp add: set_msg_field_def set_choices_def set_media_type_def set_media_def
      set_caption_def)+

lemma current_empty [simp]: "current [] i a = a"
  by (simp add: current_def)

lemma split_first_append:
  "c \<notin> set xs \<Longrightarrow> split_first c (xs @ c # ys) = (xs, ys)"
  by (induction xs) (auto simp: split_first_def)

lemma takeWhile_not_member:
  "c \<notin> set xs \<Longrightarrow> takeWhile (\<lambda>x. x \<noteq> c) xs = xs"
  by (induction xs) auto

lemma update_one_entry:
  "distinct (map fst al) \<Longrightarrow> length (filter (\<lambda>p. fst p = k) (AList.update k v al)) = 1"
proof (induction al)
  case Nil
  then show ?case by simp
next
  case (Cons p al)
  show ?case
  proof (cases "fst p = k")
    case True
    with Cons.prems have "k \<notin> fst ` set al" by auto
    then have "filter (\<lambda>p. fst p = k) al = []" by (auto simp: filter_empty_conv)
    with True show ?thesis by simp
  next
    case False
    with Cons show ?thesis by simp
  qed
qed

section \<open>Routing: \<open>handle_text_message\<close> picks the handler\<close>

text \<open>
  \<open>pattern_lookup\<close> fails exactly when no pattern of the table matches, and returns the
  handler and the captures of the first pattern that does.
\<close>
lemma pattern_lookup_None:
  "pattern_lookup m rs text = None \<longleftrightarrow> (\<forall>(p, f) \<in> set rs. m p text = None)"
  by (induction rs) (auto split: option.splits)

lemma pattern_lookup_first:
  "i < length rs \<Longrightarrow> rs ! i = (p, f) \<Longrightarrow> m p text = Some kw
   \<Longrightarrow> (\<forall>j<i. m (fst (rs ! j)) text = None)
   \<Longrightarrow> pattern_lookup m rs text = Some (f, kw)"
proof (induction rs arbitrary: i)
  case Nil
  then show ?case by simp
next
  case (Cons r rs)
  obtain p' f' where r: "r = (p', f')" by (cases r)
  show ?case
  proof (cases i)
    case 0
    with Cons.prems r show ?thesis by simp
  next
    case (Suc k)
    with Cons.prems have "m (fst ((r # rs) ! 0)) text = None" by blast
    then have none: "m p' text = None" using r by simp
    have "pattern_lookup m rs text = Some (f, kw)"
    proof (rule Cons.IH[of k])
      show "k < length rs" using Cons.prems Suc by simp
      show "rs ! k = (p, f)" using Cons.prems Suc by simp
      show "m p text = Some kw" by (rule Cons.prems)
      show "\<forall>j<k. m (fst (rs ! j)) text = None"
      proof (intro allI impI)
        fix j assume "j < k"
        then have "Suc j < i" using Suc by simp
        with Cons.prems have "m (fst ((r # rs) ! Suc j)) text = None" by blast
        then show "m (fst (rs ! j)) text = None" by simp
      qed
    qed
    with none r show ?thesis by simp
  qed
qed

text \<open>
  C1. For every text and every state of the three tables: a text that is a key of the
  exact table gets that handler and no keyword arguments; otherwise, when the pattern at
  position \<open>i\<close> of the parse table is the first one that matches, its handler is bound
  with its named captures; otherwise, when no parse pattern matches, the same holds for
  the first matching pattern of the regex table; and when nothing matches, the default
  handler is selected with no arguments. The statement is about arbitrary tables, so it
  holds for the tables that any order of registrations leaves behind.
\<close>
theorem route_precedence:
  "(\<forall>f. map_of (simple_routes C) text = Some f \<longrightarrow> route E C text = (f, []))
   \<and> (\<forall>i p f kw.
         map_of (simple_routes C) text = None
         \<and> i < length (parse_routes C) \<and> parse_routes C ! i = (p, f)
         \<and> parse_match E p text = Some kw
         \<and> (\<forall>j<i. parse_match E (fst (parse_routes C ! j)) text = None)
         \<longrightarrow> route E C text = (f, kw))
   \<and> (\<forall>i p f kw.
         map_of (simple_routes C) text = None
         \<and> (\<forall>(p', f') \<in> set (parse_routes C). parse_match E p' text = None)
         \<and> i < length (regex_routes C) \<and> regex_routes C ! i = (p, f)
         \<and> regex_match E p text = Some kw
         \<and> (\<forall>j<i. regex_match E (fst (regex_routes C ! j)) text = None)
         \<longrightarrow> route E C text = (f, kw))
   \<and> (map_of (simple_routes C) text = None
        \<and> (\<forall>(p', f') \<in> set (parse_routes C). parse_match E p' text = None)
        \<and> (\<forall>(p', f') \<in> set (regex_routes C). regex_match E p' text = None)
        \<longrightarrow> route E C text = (default_answer C, []))"
proof (intro conjI allI impI)
  fix f assume "map_of (simple_routes C) text = Some f"
  then show "route E C text = (f, [])" by (simp add: route_def)
next
  fix i p f kw
  assume a: "map_of (simple_routes C) text = None
         \<and> i < length (parse_routes C) \<and> parse_routes C ! i = (p, f)
         \<and> parse_match E p text = Some kw
         \<and> (\<forall>j<i. parse_match E (fst (parse_routes C ! j)) text = None)"
  then have "pattern_lookup (parse_match E) (parse_routes C) text = Some (f, kw)"
    by (intro pattern_lookup_first[of i _ p]) simp_all
  with a show "route E C text = (f, kw)" by (simp add: route_def)
next
  fix i p f kw
  assume a: "map_of (simple_routes C) text = None
         \<and> (\<forall>(p', f') \<in> set (parse_routes C). parse_match E p' text = None)
         \<and> i < length (regex_routes C) \<and> regex_routes C ! i = (p, f)
         \<and> regex_match E p text = Some kw
         \<and> (\<forall>j<i. regex_match E (fst (regex_routes C ! j)) text = None)"
  then have 1: "pattern_lookup (parse_match E) (parse_routes C) text = None"
    by (simp add: pattern_lookup_None)
  from a have "pattern_lookup (regex_match E) (regex_routes C) text = Some (f, kw)"
    by (intro pattern_lookup_first[of i _ p]) simp_all
  with a 1 show "route E C text = (f, kw)" by (simp add: route_def)
next
  assume a: "map_of (simple_routes C) text = None
        \<and> (\<forall>(p', f') \<in> set (parse_routes C). parse_match E p' text = None)
        \<and> (\<forall>(p', f') \<in> set (regex_routes C). regex_match E p' text = None)"
  then have "pattern_lookup (parse_match E) (parse_routes C) text = None"
    and "pattern_lookup (regex_match E) (regex_routes C) text = None"
    by (simp_all add: pattern_lookup_None)
  with a show "route E C text = (default_answer C, [])" by (simp add: route_def)
qed

text \<open>
  The four cases on the demonstration bot: \<open>'/bye'\<close> is an exact key although the parse
  and the regex pattern match it too; \<open>'/x'\<close> is matched by the parse pattern and by the
  regex pattern; without the parse route \<open>'/x'\<close> goes to the regex route; \<open>'x'\<close> matches
  nothing.
\<close>
theorem route_precedence_witness:
  "route demo_env demo_class ''/bye'' = (Fn 1, [])
   \<and> route demo_env demo_class ''/x'' = (Fn 4, [(''cmd'', ''x'')])
   \<and> route demo_env (demo_class\<lparr>parse_routes := []\<rparr>) ''/x'' = (Fn 5, [(''rest'', ''x'')])
   \<and> route demo_env demo_class ''x'' = (Default_pass, [])"
proof (intro conjI)
  show "route demo_env demo_class ''/bye'' = (Fn 1, [])"
    by (rule route_precedence[THEN conjunct1, rule_format]) (simp add: demo_class_def)
  show "route demo_env demo_class ''/x'' = (Fn 4, [(''cmd'', ''x'')])"
    by (rule route_precedence[THEN conjunct2, THEN conjunct1, rule_format, of _ _ 0 "''/{cmd}''"])
       (simp add: demo_class_def demo_env_def demo_parse_def)
  show "route demo_env (demo_class\<lparr>parse_routes := []\<rparr>) ''/x'' = (Fn 5, [(''rest'', ''x'')])"
    by (rule route_precedence[THEN conjunct2, THEN conjunct2, THEN conjunct1, rule_format,
          of _ _ _ 0 "''/(?P<rest>.*)''"])
       (simp add: demo_class_def demo_env_def demo_regex_def)
  show "route demo_env demo_class ''x'' = (Default_pass, [])"
    using route_precedence[THEN conjunct2, THEN conjunct2, THEN conjunct2, rule_format,
          of demo_class "''x''" demo_env]
    by (simp add: demo_class_def demo_env_def demo_regex_def demo_parse_def)
qed

section \<open>Registration\<close>

text \<open>
  What \<open>Marvin.answer\<close> writes for each mode, and that registering an exact pattern
  again replaces its handler and leaves one entry for the pattern.
\<close>
lemma Marvin_answer_by_mode:
  "Marvin_answer message DEFAULT func C
     = C\<lparr>simple_routes := AList.update message func (simple_routes C)\<rparr>"
  "Marvin_answer message PARSE func C
     = C\<lparr>parse_routes := AList.update message func (parse_routes C)\<rparr>"
  "Marvin_answer message REGEX func C
     = C\<lparr>regex_routes := AList.update message func (regex_routes C),
         simple_routes := AList.update message func (simple_routes C)\<rparr>"
  by (simp_all add: Marvin_answer_def)

lemma exact_reregistration_replaces:
  assumes "distinct (map fst (simple_routes C))"
  shows "map_of (simple_routes (Marvin_answer message DEFAULT g (Marvin_answer message DEFAULT f C)))
           message = Some g"
    and "length (filter (\<lambda>p. fst p = message)
           (simple_routes (Marvin_answer message DEFAULT g (Marvin_answer message DEFAULT f C)))) = 1"
  using assms by (simp_all add: Marvin_answer_by_mode update_conv' update_one_entry)

text \<open>
  C6. Registration is claimed to store the binding in exactly the table named by the
  matcher-kind. For \<open>Mode.REGEX\<close> the code runs both of its statements: the pattern is
  stored in \<open>regex_routes\<close> and, through the \<open>else\<close> of the second statement, in
  \<open>simple_routes\<close> as well. Evaluated on \<open>Marvin.answer('a+', Mode.REGEX)\<close> applied to the
  empty tables.
\<close>
theorem Marvin_answer_regex_also_simple:
  "simple_routes (Marvin_answer ''a+'' REGEX (Fn 1) initial_class) = [(''a+'', Fn 1)]
   \<and> regex_routes (Marvin_answer ''a+'' REGEX (Fn 1) initial_class) = [(''a+'', Fn 1)]
   \<and> parse_routes (Marvin_answer ''a+'' REGEX (Fn 1) initial_class) = []"
  by (simp add: Marvin_answer_def initial_class_def)

section \<open>Localization\<close>

lemma lang_code_of_no_underscore:
  "CHR ''_'' \<notin> set code \<Longrightarrow> lang_code_of E code = lower E code"
  by (simp add: lang_code_of_def takeWhile_not_member)

lemma lang_code_of_underscore:
  "CHR ''_'' \<notin> set p \<Longrightarrow> lang_code_of E (p @ CHR ''_'' # rest) = lower E p"
  by (simp add: lang_code_of_def takeWhile_tail takeWhile_not_member)

lemma apply_language_miss:
  assumes "language_lookup C (lang_code_of E (language_code cx)) (msg_field a) = Inl e1"
    and "language_lookup C ''default'' (msg_field a) = Inl e"
  shows "\<not> strict_mode cfg \<Longrightarrow> apply_language E cfg C cx a = ([], Inr (msg_field a))"
    and "strict_mode cfg \<Longrightarrow> apply_language E cfg C cx a = ([Logged CRITICAL], Inl e)"
  using assms by (simp_all add: apply_language_def)

text \<open>
  The example of the specification with the language code \<open>de-DE\<close>: the code is cut at
  an underscore, not at a hyphen, so the table \<open>de-de\<close> is looked for, is missing, and the
  key resolves through \<open>default\<close> to \<open>'Hi'\<close>, not to \<open>'Hallo'\<close>.
\<close>
theorem apply_language_de_DE_counterexample:
  "apply_language demo_env (demo_config\<lparr>language_feature := True\<rparr>) demo_class
     (demo_ctx\<lparr>language_code := ''de-DE''\<rparr>) (Answer_init (Some ''hi'') [])
   = ([], Inr (Some ''Hi''))"
  by code_simp

text \<open>
  C3, amended. The key is looked up under the requester's language code cut at its first
  underscore and lowered by \<open>str.lower\<close> (so the result depends on the code only through
  that prefix; the keys of the table are compared as they are), and under \<open>default\<close> when
  the language or the key in it is missing. \<open>str.lower\<close> is the function \<open>lower E\<close> of the
  environment, about which nothing is assumed. With the tables
  \<open>{"de": {"hi": "Hallo"}, "default": {"hi": "Hi"}}\<close> and with ASCII letters lowered as
  \<open>str.lower\<close> lowers them, the codes \<open>de_DE\<close> and \<open>DE\<close> resolve \<open>'hi'\<close> to \<open>'Hallo'\<close>, \<open>fr\<close>
  resolves it to \<open>'Hi'\<close>, and so does \<open>de-DE\<close>.
\<close>
theorem apply_language_lookup:
  "(lang_code_of E (language_code cx) = lang_code_of E (language_code cx')
      \<longrightarrow> apply_language E cfg C cx a = apply_language E cfg C cx' a)
   \<and> (\<forall>p rest. CHR ''_'' \<notin> set p \<longrightarrow> lang_code_of E (p @ CHR ''_'' # rest) = lower E p)
   \<and> (\<forall>code. CHR ''_'' \<notin> set code \<longrightarrow> lang_code_of E code = lower E code)
   \<and> (\<forall>key table template.
         msg_field a = Some key \<and> format_content a = []
         \<and> map_of (language C) (lang_code_of E (language_code cx)) = Some table
         \<and> map_of table key = Some template
         \<longrightarrow> apply_language E cfg C cx a = ([], Inr (Some template)))
   \<and> (\<forall>key table template.
         msg_field a = Some key \<and> format_content a = []
         \<and> (map_of (language C) (lang_code_of E (language_code cx)) = None
            \<or> (\<exists>own. map_of (language C) (lang_code_of E (language_code cx)) = Some own
                     \<and> map_of own key = None))
         \<and> map_of (language C) ''default'' = Some table
         \<and> map_of table key = Some template
         \<longrightarrow> apply_language E cfg C cx a = ([], Inr (Some template)))
   \<and> apply_language demo_env demo_config demo_class (demo_ctx\<lparr>language_code := ''de_DE''\<rparr>)
        (Answer_init (Some ''hi'') []) = ([], Inr (Some ''Hallo''))
   \<and> apply_language demo_env demo_config demo_class (demo_ctx\<lparr>language_code := ''DE''\<rparr>)
        (Answer_init (Some ''hi'') []) = ([], Inr (Some ''Hallo''))
   \<and> apply_language demo_env demo_config demo_class (demo_ctx\<lparr>language_code := ''fr''\<rparr>)
        (Answer_init (Some ''hi'') []) = ([], Inr (Some ''Hi''))
   \<and> apply_language demo_env demo_config demo_class (demo_ctx\<lparr>language_code := ''de-DE''\<rparr>)
        (Answer_init (Some ''hi'') []) = ([], Inr (Some ''Hi''))"
proof (intro conjI allI impI)
  assume "lang_code_of E (language_code cx) = lang_code_of E (language_code cx')"
  then show "apply_language E cfg C cx a = apply_language E cfg C cx' a"
    by (simp add: apply_language_def)
next
  fix p rest assume "CHR ''_'' \<notin> set p"
  then show "lang_code_of E (p @ CHR ''_'' # rest) = lower E p"
    by (rule lang_code_of_underscore)
next
  fix code assume "CHR ''_'' \<notin> set code"
  then show "lang_code_of E code = lower E code" by (rule lang_code_of_no_underscore)
next
  fix key table template
  assume "msg_field a = Some key \<and> format_content a = []
         \<and> map_of (language C) (lang_code_of E (language_code cx)) = Some table
         \<and> map_of table key = Some template"
  then show "apply_language E cfg C cx a = ([], Inr (Some template))"
    by (simp add: apply_language_def language_lookup_def apply_formatting_def)
next
  fix key table template
  assume "msg_field a = Some key \<and> format_content a = []
         \<and> (map_of (language C) (lang_code_of E (language_code cx)) = None
            \<or> (\<exists>own. map_of (language C) (lang_code_of E (language_code cx)) = Some own
                     \<and> map_of own key = None))
         \<and> map_of (language C) ''default'' = Some table
         \<and> map_of table key = Some template"
  then show "apply_language E cfg C cx a = ([], Inr (Some template))"
    by (auto simp: apply_language_def language_lookup_def apply_formatting_def)
next
  show "apply_language demo_env demo_config demo_class (demo_ctx\<lparr>language_code := ''de_DE''\<rparr>)
        (Answer_init (Some ''hi'') []) = ([], Inr (Some ''Hallo''))" by code_simp
  show "apply_language demo_env demo_config demo_class (demo_ctx\<lparr>language_code := ''DE''\<rparr>)
        (Answer_init (Some ''hi'') []) = ([], Inr (Some ''Hallo''))" by code_simp
  show "apply_language demo_env demo_config demo_class (demo_ctx\<lparr>language_code := ''fr''\<rparr>)
        (Answer_init (Some ''hi'') []) = ([], Inr (Some ''Hi''))" by code_simp
  show "apply_language demo_env demo_config demo_class (demo_ctx\<lparr>language_code := ''de-DE''\<rparr>)
        (Answer_init (Some ''hi'') []) = ([], Inr (Some ''Hi''))" by code_simp
qed

theorem apply_language_lookup_witness:
  "apply_language demo_env (demo_config\<lparr>language_feature := True\<rparr>) demo_class
      (demo_ctx\<lparr>language_code := ''de_DE''\<rparr>) (Answer_init (Some ''hi'') [])
    = ([], Inr (Some ''Hallo''))
   \<and> apply_language demo_env (demo_config\<lparr>language_feature := True\<rparr>) demo_class
      (demo_ctx\<lparr>language_code := ''fr''\<rparr>) (Answer_init (Some ''hi'') [])
    = ([], Inr (Some ''Hi''))
   \<and> lang_code_of demo_env ''de_DE'' = lower demo_env ''de''"
proof (intro conjI)
  show "apply_language demo_env (demo_config\<lparr>language_feature := True\<rparr>) demo_class
      (demo_ctx\<lparr>language_code := ''de_DE''\<rparr>) (Answer_init (Some ''hi'') [])
    = ([], Inr (Some ''Hallo''))"
    by (rule apply_language_lookup[THEN conjunct2, THEN conjunct2, THEN conjunct2, THEN conjunct1,
          rule_format, where key = "''hi''" and table = "[(''hi'', ''Hallo'')]"])
       (simp add: Answer_init_def demo_class_def demo_env_def lang_code_of_def ascii_lower_def ascii_lower_char_def)
  show "apply_language demo_env (demo_config\<lparr>language_feature := True\<rparr>) demo_class
      (demo_ctx\<lparr>language_code := ''fr''\<rparr>) (Answer_init (Some ''hi'') [])
    = ([], Inr (Some ''Hi''))"
    by (rule apply_language_lookup[THEN conjunct2, THEN conjunct2, THEN conjunct2, THEN conjunct2,
          THEN conjunct1, rule_format, where key = "''hi''" and table = "[(''hi'', ''Hi'')]"])
       (simp add: Answer_init_def demo_class_def demo_env_def lang_code_of_def ascii_lower_def ascii_lower_char_def)
  show "lang_code_of demo_env ''de_DE'' = lower demo_env ''de''"
    using apply_language_lookup[THEN conjunct2, THEN conjunct1, rule_format,
          where p = "''de''" and rest = "''DE''" and E = demo_env]
    by simp
qed

section \<open>Media shorthand in \<open>Answer.msg\<close>\<close>

lemma known_kind_no_colon:
  "kind \<in> set [''sticker'', ''audio'', ''voice'', ''document'', ''photo'', ''video'']
   \<Longrightarrow> CHR '':'' \<notin> set kind"
  by auto

lemma known_kind_media:
  "(kind, k) \<in> set [(''sticker'', STICKER), (''voice'', VOICE), (''audio'', AUDIO),
                     (''photo'', PHOTO), (''video'', VIDEO), (''document'', DOCUMENT)]
   \<Longrightarrow> kind \<in> set [''sticker'', ''audio'', ''voice'', ''document'', ''photo'', ''video'']
       \<and> media_of_command kind = k"
  by (auto simp: media_of_command_def media_commands_def)

lemma detect_media_plain:
  assumes "kind \<in> set [''sticker'', ''audio'', ''voice'', ''document'', ''photo'', ''video'']"
    and "CHR '';'' \<notin> set rest"
  shows "detect_media a (kind @ CHR '':'' # rest)
         = (set_media_type (Some (media_of_command kind)) (set_msg_field None (set_media (Some rest) a)),
            None)"
proof -
  have c: "CHR '':'' \<in> set (kind @ CHR '':'' # rest)" by simp
  show ?thesis
    using assms known_kind_no_colon[OF assms(1)] c
    by (simp add: detect_media_def split_first_append del: set_simps set_append)
qed

lemma detect_media_caption:
  assumes "kind \<in> set [''sticker'', ''audio'', ''voice'', ''document'', ''photo'', ''video'']"
    and "CHR '';'' \<notin> set ref"
  shows "detect_media a (kind @ CHR '':'' # ref @ CHR '';'' # cap)
         = (set_media_type (Some (media_of_command kind))
              (set_msg_field None (set_caption (Some cap) (set_media (Some ref) a))),
            None)"
proof -
  have c: "CHR '':'' \<in> set (kind @ CHR '':'' # ref @ CHR '';'' # cap)" by simp
  have d: "CHR '';'' \<in> set (ref @ CHR '';'' # cap)" by simp
  show ?thesis
    using assms known_kind_no_colon[OF assms(1)] c d
    by (simp add: detect_media_def split_first_append del: set_simps set_append)
qed

lemma detect_media_text:
  assumes "CHR '':'' \<notin> set text
           \<or> takeWhile (\<lambda>c. c \<noteq> CHR '':'') text
               \<notin> set [''sticker'', ''audio'', ''voice'', ''document'', ''photo'', ''video'']"
  shows "detect_media a text = (set_media_type (Some TEXT) a, Some text)"
proof (cases "CHR '':'' \<in> set text")
  case False
  then show ?thesis by (simp add: detect_media_def media_of_command_def media_commands_def)
next
  case True
  with assms have nk: "takeWhile (\<lambda>c. c \<noteq> CHR '':'') text
               \<notin> set [''sticker'', ''audio'', ''voice'', ''document'', ''photo'', ''video'']"
    by blast
  then have "media_of_command (takeWhile (\<lambda>c. c \<noteq> CHR '':'') text) = TEXT"
    by (simp add: media_of_command_def media_commands_def)
  with True nk show ?thesis
    by (simp add: detect_media_def split_first_def del: set_simps)
qed

lemma msg_retrieved:
  assumes "media_type a = None"
    and "(if language_feature cfg then snd (apply_language E cfg C cx a) else Inr (msg_field a))
         = Inr (Some text)"
  shows "fst (msg E cfg C cx a) = fst (detect_media a text)"
    and "snd (snd (msg E cfg C cx a)) = Inr (snd (detect_media a text))"
  using assms by (auto simp: msg_def split: prod.splits if_splits)

text \<open>
  For an answer whose media kind is unset and whose retrieved message (localized or
  literal) is the string \<open>text\<close>: when \<open>text\<close> is \<open>kind:rest\<close> with one of the six known kinds,
  the media kind is the one that \<open>media_commands\<close> gives to that kind, the message and the
  stored payload are cleared, and \<open>rest\<close> is the media reference, or, when it contains a
  semicolon, is split at the first one into media reference and caption; otherwise the
  media kind is text and nothing else changes.
\<close>
lemma msg_media_shorthand:
  assumes "media_type a = None"
    and "(if language_feature cfg then snd (apply_language E cfg C cx a) else Inr (msg_field a))
         = Inr (Some text)"
  shows
  "((kind, k) \<in> set [(''sticker'', STICKER), (''voice'', VOICE), (''audio'', AUDIO),
                      (''photo'', PHOTO), (''video'', VIDEO), (''document'', DOCUMENT)]
      \<and> text = kind @ CHR '':'' # rest \<and> CHR '';'' \<notin> set rest
    \<longrightarrow> snd (snd (msg E cfg C cx a)) = Inr None
        \<and> media_type (fst (msg E cfg C cx a)) = Some k
        \<and> media (fst (msg E cfg C cx a)) = Some rest
        \<and> caption (fst (msg E cfg C cx a)) = caption a
        \<and> msg_field (fst (msg E cfg C cx a)) = None)
   \<and> ((kind, k) \<in> set [(''sticker'', STICKER), (''voice'', VOICE), (''audio'', AUDIO),
                        (''photo'', PHOTO), (''video'', VIDEO), (''document'', DOCUMENT)]
      \<and> text = kind @ CHR '':'' # ref @ CHR '';'' # cap \<and> CHR '';'' \<notin> set ref
    \<longrightarrow> snd (snd (msg E cfg C cx a)) = Inr None
        \<and> media_type (fst (msg E cfg C cx a)) = Some k
        \<and> media (fst (msg E cfg C cx a)) = Some ref
        \<and> caption (fst (msg E cfg C cx a)) = Some cap
        \<and> msg_field (fst (msg E cfg C cx a)) = None)
   \<and> (CHR '':'' \<notin> set text
       \<or> takeWhile (\<lambda>c. c \<noteq> CHR '':'') text
            \<notin> set [''sticker'', ''audio'', ''voice'', ''document'', ''photo'', ''video'']
    \<longrightarrow> snd (snd (msg E cfg C cx a)) = Inr (Some text)
        \<and> media_type (fst (msg E cfg C cx a)) = Some TEXT
        \<and> media (fst (msg E cfg C cx a)) = media a
        \<and> caption (fst (msg E cfg C cx a)) = caption a
        \<and> msg_field (fst (msg E cfg C cx a)) = msg_field a)"
proof (intro conjI impI)
  note r = msg_retrieved[OF assms]
  {
    assume h: "(kind, k) \<in> set [(''sticker'', STICKER), (''voice'', VOICE), (''audio'', AUDIO),
                      (''photo'', PHOTO), (''video'', VIDEO), (''document'', DOCUMENT)]
      \<and> text = kind @ CHR '':'' # rest \<and> CHR '';'' \<notin> set rest"
    then have kk: "kind \<in> set [''sticker'', ''audio'', ''voice'', ''document'', ''photo'', ''video'']"
      and k: "media_of_command kind = k"
      using known_kind_media[of kind k] by blast+
    from h kk have d: "detect_media a text
         = (set_media_type (Some (media_of_command kind)) (set_msg_field None (set_media (Some rest) a)),
            None)"
      using detect_media_plain[of kind rest a] by blast
    show "snd (snd (msg E cfg C cx a)) = Inr None" using r d by simp
    show "media_type (fst (msg E cfg C cx a)) = Some k" using r d k by simp
    show "media (fst (msg E cfg C cx a)) = Some rest" using r d by simp
    show "caption (fst (msg E cfg C cx a)) = caption a" using r d by simp
    show "msg_field (fst (msg E cfg C cx a)) = None" using r d by simp
  }
  {
    assume h: "(kind, k) \<in> set [(''sticker'', STICKER), (''voice'', VOICE), (''audio'', AUDIO),
                        (''photo'', PHOTO), (''video'', VIDEO), (''document'', DOCUMENT)]
      \<and> text = kind @ CHR '':'' # ref @ CHR '';'' # cap \<and> CHR '';'' \<notin> set ref"
    then have kk: "kind \<in> set [''sticker'', ''audio'', ''voice'', ''document'', ''photo'', ''video'']"
      and k: "media_of_command kind = k"
      using known_kind_media[of kind k] by blast+
    from h kk have d: "detect_media a text
         = (set_media_type (Some (media_of_command kind))
              (set_msg_field None (set_caption (Some cap) (set_media (Some ref) a))),
            None)"
      using detect_media_caption[of kind ref a cap] by blast
    show "snd (snd (msg E cfg C cx a)) = Inr None" using r d by simp
    show "media_type (fst (msg E cfg C cx a)) = Some k" using r d k by simp
    show "media (fst (msg E cfg C cx a)) = Some ref" using r d by simp
    show "caption (fst (msg E cfg C cx a)) = Some cap" using r d by simp
    show "msg_field (fst (msg E cfg C cx a)) = None" using r d by simp
  }
  {
    assume h: "CHR '':'' \<notin> set text
       \<or> takeWhile (\<lambda>c. c \<noteq> CHR '':'') text
            \<notin> set [''sticker'', ''audio'', ''voice'', ''document'', ''photo'', ''video'']"
    have d: "detect_media a text = (set_media_type (Some TEXT) a, Some text)"
      by (rule detect_media_text[OF h])
    show "snd (snd (msg E cfg C cx a)) = Inr (Some text)" using r d by simp
    show "media_type (fst (msg E cfg C cx a)) = Some TEXT" using r d by simp
    show "media (fst (msg E cfg C cx a)) = media a" using r d by simp
    show "caption (fst (msg E cfg C cx a)) = caption a" using r d by simp
    show "msg_field (fst (msg E cfg C cx a)) = msg_field a" using r d by simp
  }
qed

text \<open>
  The two examples of the specification, \<open>'sticker:abc123'\<close> and
  \<open>'photo:abc123;a cat'\<close>, and a plain text.
\<close>
lemma msg_media_shorthand_examples:
  "snd (snd (msg demo_env demo_config demo_class demo_ctx (Answer_init (Some ''sticker:abc123'') [])))
     = Inr None
   \<and> media_type (fst (msg demo_env demo_config demo_class demo_ctx
        (Answer_init (Some ''sticker:abc123'') []))) = Some STICKER
   \<and> media (fst (msg demo_env demo_config demo_class demo_ctx
        (Answer_init (Some ''sticker:abc123'') []))) = Some ''abc123''
   \<and> caption (fst (msg demo_env demo_config demo_class demo_ctx
        (Answer_init (Some ''sticker:abc123'') []))) = None
   \<and> media_type (fst (msg demo_env demo_config demo_class demo_ctx
        (Answer_init (Some ''photo:abc123;a cat'') []))) = Some PHOTO
   \<and> media (fst (msg demo_env demo_config demo_class demo_ctx
        (Answer_init (Some ''photo:abc123;a cat'') []))) = Some ''abc123''
   \<and> caption (fst (msg demo_env demo_config demo_class demo_ctx
        (Answer_init (Some ''photo:abc123;a cat'') []))) = Some ''a cat''
   \<and> snd (snd (msg demo_env demo_config demo_class demo_ctx (Answer_init (Some ''hello'') [])))
     = Inr (Some ''hello'')
   \<and> media_type (fst (msg demo_env demo_config demo_class demo_ctx
        (Answer_init (Some ''hello'') []))) = Some TEXT"
proof -
  have unset: "\<And>t. media_type (Answer_init (Some t) []) = None"
    by (simp add: Answer_init_def)
  have got: "\<And>t. (if language_feature demo_config
                  then snd (apply_language demo_env demo_config demo_class demo_ctx
                         (Answer_init (Some t) []))
                  else Inr (msg_field (Answer_init (Some t) []))) = Inr (Some t)"
    by (simp add: demo_config_def Answer_init_def)
  have s: "snd (snd (msg demo_env demo_config demo_class demo_ctx (Answer_init (Some ''sticker:abc123'') [])))
       = Inr None
     \<and> media_type (fst (msg demo_env demo_config demo_class demo_ctx
          (Answer_init (Some ''sticker:abc123'') []))) = Some STICKER
     \<and> media (fst (msg demo_env demo_config demo_class demo_ctx
          (Answer_init (Some ''sticker:abc123'') []))) = Some ''abc123''
     \<and> caption (fst (msg demo_env demo_config demo_class demo_ctx
          (Answer_init (Some ''sticker:abc123'') []))) = caption (Answer_init (Some ''sticker:abc123'') [])
     \<and> msg_field (fst (msg demo_env demo_config demo_class demo_ctx
          (Answer_init (Some ''sticker:abc123'') []))) = None"
    by (rule msg_media_shorthand[OF unset got, THEN conjunct1, rule_format,
          where kind = "''sticker''" and k = STICKER and rest = "''abc123''"]) simp
  have p: "snd (snd (msg demo_env demo_config demo_class demo_ctx (Answer_init (Some ''photo:abc123;a cat'') [])))
       = Inr None
     \<and> media_type (fst (msg demo_env demo_config demo_class demo_ctx
          (Answer_init (Some ''photo:abc123;a cat'') []))) = Some PHOTO
     \<and> media (fst (msg demo_env demo_config demo_class demo_ctx
          (Answer_init (Some ''photo:abc123;a cat'') []))) = Some ''abc123''
     \<and> caption (fst (msg demo_env demo_config demo_class demo_ctx
          (Answer_init (Some ''photo:abc123;a cat'') []))) = Some ''a cat''
     \<and> msg_field (fst (msg demo_env demo_config demo_class demo_ctx
          (Answer_init (Some ''photo:abc123;a cat'') []))) = None"
    by (rule msg_media_shorthand[OF unset got, THEN conjunct2, THEN conjunct1, rule_format,
          where kind = "''photo''" and k = PHOTO and ref = "''abc123''" and cap = "''a cat''"]) simp
  have h: "snd (snd (msg demo_env demo_config demo_class demo_ctx (Answer_init (Some ''hello'') [])))
       = Inr (Some ''hello'')
     \<and> media_type (fst (msg demo_env demo_config demo_class demo_ctx
          (Answer_init (Some ''hello'') []))) = Some TEXT
     \<and> media (fst (msg demo_env demo_config demo_class demo_ctx
          (Answer_init (Some ''hello'') []))) = media (Answer_init (Some ''hello'') [])
     \<and> caption (fst (msg demo_env demo_config demo_class demo_ctx
          (Answer_init (Some ''hello'') []))) = caption (Answer_init (Some ''hello'') [])
     \<and> msg_field (fst (msg demo_env demo_config demo_class demo_ctx
          (Answer_init (Some ''hello'') []))) = msg_field (Answer_init (Some ''hello'') [])"
    by (rule msg_media_shorthand[OF unset got, THEN conjunct2, THEN conjunct2, rule_format]) simp
  from s p h show ?thesis
    by (simp add: Answer_init_def)
qed

text \<open>
  C7. Every answer whose media kind is unset is claimed to get the media kind text when
  its payload holds no shorthand. \<open>msg\<close> sets \<open>command = ""\<close> and ends the branch with
  \<open>media_commands.get(command, Media.TEXT)\<close>, but before that it evaluates \<open>":" in msg\<close>
  on the retrieved message. For \<open>Answer()\<close>, whose payload is the \<open>None\<close> that the
  constructor gives by default, this test raises \<open>TypeError\<close>, and the media kind stays
  unset. Evaluated on \<open>Answer()\<close> with the language feature off.
\<close>
theorem msg_without_payload_raises:
  "msg demo_env demo_config demo_class demo_ctx (Answer_init None [])
   = (Answer_init None [], [], Inl (Exn TypeError [''argument of type NoneType is not iterable'']))
   \<and> media_type (fst (msg demo_env demo_config demo_class demo_ctx (Answer_init None []))) = None"
  by code_simp

section \<open>Normalization of handler results in \<open>prepare_answer\<close>\<close>

lemma try_block_sequence:
  "\<not> is_Answer x \<Longrightarrow>
   try_block E cfg C cx (PList (x # rest)) s
     = try_block E cfg C cx (PAnswer 0 (Answer_init (Some (py_str E x)) rest)) s"
  "\<not> is_Answer x \<Longrightarrow>
   try_block E cfg C cx (PTuple (x # rest)) s
     = try_block E cfg C cx (PAnswer 0 (Answer_init (Some (py_str E x)) rest)) s"
  by (cases x; simp add: try_block_def convert_answer_def convert_sequence_def answers_of_def)+

lemma try_block_bare:
  "try_block E cfg C cx (PStr t) s = try_block E cfg C cx (PAnswer 0 (Answer_init (Some t) [])) s"
  "try_block E cfg C cx (PObj r) s = try_block E cfg C cx (PAnswer 0 (Answer_init (Some r) [])) s"
  by (simp_all add: try_block_def convert_answer_def answers_of_def)

lemma try_block_iterated:
  "try_block E cfg C cx (PAnswer i a) s = handle_answer E cfg C cx [] [PAnswer i a] s"
  "try_block E cfg C cx (PGen xs) s = handle_answer E cfg C cx [] xs s"
  "is_Answer x \<Longrightarrow> try_block E cfg C cx (PList (x # rest)) s = handle_answer E cfg C cx [] (x # rest) s"
  "is_Answer x \<Longrightarrow> try_block E cfg C cx (PTuple (x # rest)) s = handle_answer E cfg C cx [] (x # rest) s"
  by (cases x; simp add: try_block_def convert_answer_def convert_sequence_def answers_of_def)+

lemma try_block_identity:
  "try_block E cfg C cx (PAnswer i a) s = try_block E cfg C cx (PAnswer j a) s"
  by (simp add: try_block_iterated Let_def split: prod.splits sum.splits option.splits)

lemma prepare_answer_cong:
  assumes "answer \<noteq> PNone" and "answer' \<noteq> PNone"
    and "try_block E cfg C cx answer s = try_block E cfg C cx answer' s"
  shows "prepare_answer n E cfg C cx answer lg s = prepare_answer n E cfg C cx answer' lg s"
proof (cases n)
  case 0
  then show ?thesis by simp
next
  case (Suc k)
  with assms show ?thesis
    by (cases answer; cases answer'; simp)
qed

lemma handle_answer_all_sent:
  assumes "distinct (map fst ras)"
    and "\<forall>(i, a) \<in> set ras. \<exists>mid. snd (snd (Answer_send E cfg C cx a)) = Inr (Some mid)"
    and "\<forall>(i, a) \<in> set ras. map_of objs i = None"
  shows "snd (handle_answer E cfg C cx objs (map (\<lambda>(i, a). PAnswer i a) ras) s) = None
         \<and> trace (fst (handle_answer E cfg C cx objs (map (\<lambda>(i, a). PAnswer i a) ras) s))
           = trace s @ concat (map (\<lambda>(i, a). fst (snd (Answer_send E cfg C cx a))) ras)"
  using assms
proof (induction ras arbitrary: s objs)
  case Nil
  then show ?case by simp
next
  case (Cons p ras)
  obtain i a where p: "p = (i, a)" by (cases p)
  from Cons.prems p have cur: "current objs i a = a" by (simp add: current_def)
  obtain a1 evs r where as: "Answer_send E cfg C cx a = (a1, evs, r)"
    by (cases "Answer_send E cfg C cx a")
  with Cons.prems p obtain mid where r: "r = Inr (Some mid)" by auto
  from Cons.prems have d: "distinct (map fst ras)" by simp
  from Cons.prems
  have ok: "\<forall>(i, a) \<in> set ras. \<exists>mid. snd (snd (Answer_send E cfg C cx a)) = Inr (Some mid)"
    by simp
  have fresh: "\<forall>(j, b) \<in> set ras. map_of (AList.update i a1 objs) j = None"
  proof (clarify)
    fix j b assume jb: "(j, b) \<in> set ras"
    with Cons.prems p have "j \<noteq> i" by force
    moreover from jb Cons.prems have "map_of objs j = None" by auto
    ultimately show "map_of (AList.update i a1 objs) j = None" by (simp add: update_conv')
  qed
  let ?s1 = "(emit evs s)\<lparr>last_sent := Some (a1, Some mid)\<rparr>"
  show ?case
  proof (cases "callback a1")
    case None
    then have "handle_answer E cfg C cx objs (map (\<lambda>(i, a). PAnswer i a) (p # ras)) s
               = handle_answer E cfg C cx (AList.update i a1 objs) (map (\<lambda>(i, a). PAnswer i a) ras) ?s1"
      using as r p cur by simp
    with Cons.IH[OF d ok fresh, of ?s1] as p show ?thesis by (simp add: emit_def)
  next
    case (Some cb)
    let ?s2 = "?s1\<lparr>query_callback := AList.update mid cb (query_callback ?s1)\<rparr>"
    from Some have "handle_answer E cfg C cx objs (map (\<lambda>(i, a). PAnswer i a) (p # ras)) s
               = handle_answer E cfg C cx (AList.update i a1 objs) (map (\<lambda>(i, a). PAnswer i a) ras) ?s2"
      using as r p cur by simp
    with Cons.IH[OF d ok fresh, of ?s2] as p show ?thesis by (simp add: emit_def)
  qed
qed

lemma prepare_answer_all_sent:
  assumes d: "distinct (map fst ras)"
    and ok: "\<forall>(i, a) \<in> set ras. \<exists>mid. snd (snd (Answer_send E cfg C cx a)) = Inr (Some mid)"
    and tb: "v \<noteq> PNone"
      "try_block E cfg C cx v s = handle_answer E cfg C cx [] (map (\<lambda>(i, a). PAnswer i a) ras) s"
  shows "\<exists>s'. prepare_answer (Suc n) E cfg C cx v lg s = Some (s', None)
            \<and> trace s' = trace s @ concat (map (\<lambda>(i, a). fst (snd (Answer_send E cfg C cx a))) ras)
                           @ (if lg = [] then [] else [Logged INFO])"
proof -
  obtain s1 r1 where h: "handle_answer E cfg C cx [] (map (\<lambda>(i, a). PAnswer i a) ras) s = (s1, r1)"
    by (cases "handle_answer E cfg C cx [] (map (\<lambda>(i, a). PAnswer i a) ras) s")
  have "\<forall>(i, a) \<in> set ras. map_of ([] :: (nat \<times> answer) list) i = None" by simp
  with handle_answer_all_sent[OF d ok, of "[]" s] h have r1: "r1 = None"
    and t: "trace s1 = trace s @ concat (map (\<lambda>(i, a). fst (snd (Answer_send E cfg C cx a))) ras)"
    by simp_all
  from tb h r1 have "prepare_answer (Suc n) E cfg C cx v lg s
                 = Some (if length lg > 0 then log INFO s1 else s1, None)"
    by (cases v) simp_all
  with t show ?thesis by (auto simp: log_def)
qed

text \<open>
  A generator that yields the string \<open>'hi'\<close> is neither wrapped into one answer nor
  sent: the conversion leaves generators alone, \<open>handle_answer\<close> calls \<open>_send\<close> on the
  string, and the \<open>AttributeError\<close> ends in the error path with nothing sent, whereas
  \<open>Answer('hi')\<close> is sent.
\<close>
theorem prepare_answer_generator_counterexample:
  "result_trace (prepare_answer 1 demo_env demo_config demo_class demo_ctx
                   (PGen [PStr ''hi'']) [] demo_session)
     = Some [Logged WARNING]
   \<and> result_trace (prepare_answer 1 demo_env demo_config demo_class demo_ctx
                   (PAnswer 0 (Answer_init (Some ''hi'') [])) [] demo_session)
     = Some [Sent (demo_text_request ''hi'') 7]"
  by code_simp

text \<open>
  C2, amended. \<open>None\<close> sends nothing. A string or another object that is no answer,
  list, tuple or generator is handled as one answer whose payload is \<open>str()\<close> of it (the
  string itself for a string), with no format arguments. A non-empty list or tuple whose
  first element is no answer is handled as one answer whose payload is \<open>str()\<close> of the
  first element and whose format arguments are the remaining elements in order. A
  non-empty list, tuple or generator of pairwise distinct answer objects that can all
  be sent is sent in order, each as \<open>_send\<close> sends it alone. A generator is always
  iterated as it is, and an element that is no answer raises \<open>AttributeError\<close> there.
\<close>
theorem prepare_answer_normalization:
  "prepare_answer (Suc n) E cfg C cx PNone lg s = Some (log INFO s, None)
   \<and> sends (log INFO s) = sends s
   \<and> (\<forall>t i. prepare_answer n E cfg C cx (PStr t) lg s
          = prepare_answer n E cfg C cx (PAnswer i (Answer_init (Some t) [])) lg s)
   \<and> (\<forall>r i. prepare_answer n E cfg C cx (PObj r) lg s
          = prepare_answer n E cfg C cx (PAnswer i (Answer_init (Some r) [])) lg s)
   \<and> (\<forall>x rest i. \<not> is_Answer x
        \<longrightarrow> prepare_answer n E cfg C cx (PList (x # rest)) lg s
            = prepare_answer n E cfg C cx (PAnswer i (Answer_init (Some (py_str E x)) rest)) lg s
          \<and> prepare_answer n E cfg C cx (PTuple (x # rest)) lg s
            = prepare_answer n E cfg C cx (PAnswer i (Answer_init (Some (py_str E x)) rest)) lg s)
   \<and> (\<forall>t. py_str E (PStr t) = t)
   \<and> (\<forall>ras v. ras \<noteq> [] \<and> distinct (map fst ras)
        \<and> (\<forall>(i, a) \<in> set ras. \<exists>mid. snd (snd (Answer_send E cfg C cx a)) = Inr (Some mid))
        \<and> v \<in> {PList (map (\<lambda>(i, a). PAnswer i a) ras), PTuple (map (\<lambda>(i, a). PAnswer i a) ras),
               PGen (map (\<lambda>(i, a). PAnswer i a) ras)}
        \<longrightarrow> (\<exists>s'. prepare_answer (Suc n) E cfg C cx v lg s = Some (s', None)
               \<and> trace s' = trace s
                    @ concat (map (\<lambda>(i, a). fst (snd (Answer_send E cfg C cx a))) ras)
                    @ (if lg = [] then [] else [Logged INFO])))
   \<and> (\<forall>xs. try_block E cfg C cx (PGen xs) s = handle_answer E cfg C cx [] xs s)
   \<and> (\<forall>x rest objs. \<not> is_Answer x
        \<longrightarrow> handle_answer E cfg C cx objs (x # rest) s
            = (s, Some (Exn AttributeError [''object has no attribute _send''])))"
proof (intro conjI allI impI)
  show "prepare_answer (Suc n) E cfg C cx PNone lg s = Some (log INFO s, None)" by simp
  show "sends (log INFO s) = sends s" by (simp add: sends_def log_def)
next
  fix t
  show "py_str E (PStr t) = t" by simp
next
  fix t i
  show "prepare_answer n E cfg C cx (PStr t) lg s
          = prepare_answer n E cfg C cx (PAnswer i (Answer_init (Some t) [])) lg s"
    by (intro prepare_answer_cong trans[OF try_block_bare(1) try_block_identity]) simp_all
next
  fix r i
  show "prepare_answer n E cfg C cx (PObj r) lg s
          = prepare_answer n E cfg C cx (PAnswer i (Answer_init (Some r) [])) lg s"
    by (intro prepare_answer_cong trans[OF try_block_bare(2) try_block_identity]) simp_all
next
  fix x rest i assume x: "\<not> is_Answer x"
  show "prepare_answer n E cfg C cx (PList (x # rest)) lg s
            = prepare_answer n E cfg C cx (PAnswer i (Answer_init (Some (py_str E x)) rest)) lg s"
    by (intro prepare_answer_cong trans[OF try_block_sequence(1)[OF x] try_block_identity]) simp_all
  show "prepare_answer n E cfg C cx (PTuple (x # rest)) lg s
            = prepare_answer n E cfg C cx (PAnswer i (Answer_init (Some (py_str E x)) rest)) lg s"
    by (intro prepare_answer_cong trans[OF try_block_sequence(2)[OF x] try_block_identity]) simp_all
next
  fix x rest objs assume x: "\<not> is_Answer x"
  then show "handle_answer E cfg C cx objs (x # rest) s
            = (s, Some (Exn AttributeError [''object has no attribute _send'']))"
    by (cases x) simp_all
next
  fix ras v
  assume a: "ras \<noteq> [] \<and> distinct (map fst ras)
        \<and> (\<forall>(i, a) \<in> set ras. \<exists>mid. snd (snd (Answer_send E cfg C cx a)) = Inr (Some mid))
        \<and> v \<in> {PList (map (\<lambda>(i, a). PAnswer i a) ras), PTuple (map (\<lambda>(i, a). PAnswer i a) ras),
               PGen (map (\<lambda>(i, a). PAnswer i a) ras)}"
  then obtain p ps where ras: "ras = p # ps" by (cases ras) auto
  obtain i b where p: "p = (i, b)" by (cases p)
  from a ras p
  have tb: "v \<noteq> PNone" "try_block E cfg C cx v s
              = handle_answer E cfg C cx [] (map (\<lambda>(i, a). PAnswer i a) ras) s"
    using try_block_iterated by auto
  from a show "\<exists>s'. prepare_answer (Suc n) E cfg C cx v lg s = Some (s', None)
               \<and> trace s' = trace s
                    @ concat (map (\<lambda>(i, a). fst (snd (Answer_send E cfg C cx a))) ras)
                    @ (if lg = [] then [] else [Logged INFO])"
    by (intro prepare_answer_all_sent tb) simp_all
next
  fix xs
  show "try_block E cfg C cx (PGen xs) s = handle_answer E cfg C cx [] xs s"
    by (rule try_block_iterated)
qed

theorem prepare_answer_normalization_witness:
  "result_trace (prepare_answer 1 demo_env demo_config demo_class demo_ctx
                   (PList [PStr ''hi'', PStr ''Bob'']) [] demo_session)
     = Some [Sent (demo_text_request ''hi'') 7]
   \<and> result_trace (prepare_answer 1 demo_env demo_config demo_class demo_ctx
        (PList [PAnswer 1 (Answer_init (Some ''a'') []), PAnswer 2 (Answer_init (Some ''b'') [])])
        [] demo_session)
     = Some [Sent (demo_text_request ''a'') 7, Sent (demo_text_request ''b'') 7]"
proof
  have "prepare_answer 1 demo_env demo_config demo_class demo_ctx
          (PList (PStr ''hi'' # [PStr ''Bob''])) [] demo_session
        = prepare_answer 1 demo_env demo_config demo_class demo_ctx
            (PAnswer 0 (Answer_init (Some (py_str demo_env (PStr ''hi''))) [PStr ''Bob''])) [] demo_session"
    by (rule prepare_answer_normalization[THEN conjunct2, THEN conjunct2, THEN conjunct2,
          THEN conjunct2, THEN conjunct1, rule_format, THEN conjunct1]) simp
  moreover have "result_trace (prepare_answer 1 demo_env demo_config demo_class demo_ctx
            (PAnswer 0 (Answer_init (Some (py_str demo_env (PStr ''hi''))) [PStr ''Bob''])) [] demo_session)
        = Some [Sent (demo_text_request ''hi'') 7]"
    by code_simp
  ultimately show "result_trace (prepare_answer 1 demo_env demo_config demo_class demo_ctx
                   (PList [PStr ''hi'', PStr ''Bob'']) [] demo_session)
     = Some [Sent (demo_text_request ''hi'') 7]" by simp
next
  let ?ras = "[(1::nat, Answer_init (Some ''a'') []), (2, Answer_init (Some ''b'') [])]"
  have sa: "Answer_send demo_env demo_config demo_class demo_ctx (Answer_init (Some ''a'') [])
            = (Answer (Some ''a'') [] None None None (Some TEXT) None None 0,
               [Sent (demo_text_request ''a'') 7], Inr (Some 7))" by code_simp
  have sb: "Answer_send demo_env demo_config demo_class demo_ctx (Answer_init (Some ''b'') [])
            = (Answer (Some ''b'') [] None None None (Some TEXT) None None 0,
               [Sent (demo_text_request ''b'') 7], Inr (Some 7))" by code_simp
  have ok: "\<forall>(i, a) \<in> set ?ras. \<exists>mid. snd (snd (Answer_send demo_env demo_config demo_class demo_ctx a))
              = Inr (Some mid)"
    using sa sb by simp
  have ev: "concat (map (\<lambda>(i, a). fst (snd (Answer_send demo_env demo_config demo_class demo_ctx a))) ?ras)
            = [Sent (demo_text_request ''a'') 7, Sent (demo_text_request ''b'') 7]"
    using sa sb by simp
  have d: "distinct (map fst ?ras)" by simp
  from prepare_answer_normalization[THEN conjunct2, THEN conjunct2, THEN conjunct2, THEN conjunct2,
        THEN conjunct2, THEN conjunct2, THEN conjunct1, rule_format,
        where ras = ?ras and E = demo_env and cfg = demo_config and C = demo_class and cx = demo_ctx
          and v = "PList (map (\<lambda>(i, a). PAnswer i a) ?ras)" and n = 0 and s = demo_session
          and lg = "[]"] ok d
  obtain s' where "prepare_answer (Suc 0) demo_env demo_config demo_class demo_ctx
                     (PList (map (\<lambda>(i, a). PAnswer i a) ?ras)) [] demo_session = Some (s', None)"
    and "trace s' = trace demo_session
            @ concat (map (\<lambda>(i, a). fst (snd (Answer_send demo_env demo_config demo_class demo_ctx a))) ?ras)
            @ (if ([]::string) = [] then [] else [Logged INFO])"
    by auto
  with ev show "result_trace (prepare_answer 1 demo_env demo_config demo_class demo_ctx
        (PList [PAnswer 1 (Answer_init (Some ''a'') []), PAnswer 2 (Answer_init (Some ''b'') [])])
        [] demo_session)
     = Some [Sent (demo_text_request ''a'') 7, Sent (demo_text_request ''b'') 7]"
    by (simp add: result_trace_def demo_session_def)
qed

text \<open>
  The same object twice in one list is not sent twice as it was returned: the first
  \<open>_send\<close> resolves the shorthand and clears the payload of the object, so the second
  \<open>_send\<close> looks up \<open>None\<close>, which in strict mode is a miss. Two distinct objects with
  the same fields are both sent.
\<close>
lemma repeated_object_sent_once:
  "result_trace (prepare_answer 1 demo_env
       (demo_config\<lparr>language_feature := True, strict_mode := True\<rparr>)
       (demo_class\<lparr>language := [(''de'', [(''st'', ''sticker:abc123'')])]\<rparr>) demo_ctx
       (PList [PAnswer 1 (Answer_init (Some ''st'') []), PAnswer 1 (Answer_init (Some ''st'') [])])
       [] demo_session)
     = Some [Sent (Send_request STICKER (Some ''abc123'')
                [(''reply_to_message_id'', VNat None), (''disable_notification'', VBool False),
                 (''reply_markup'', VMarkup None)]) 7,
             Logged CRITICAL, Logged WARNING]"
  "result_trace (prepare_answer 1 demo_env
       (demo_config\<lparr>language_feature := True, strict_mode := True\<rparr>)
       (demo_class\<lparr>language := [(''de'', [(''st'', ''sticker:abc123'')])]\<rparr>) demo_ctx
       (PList [PAnswer 1 (Answer_init (Some ''st'') []), PAnswer 2 (Answer_init (Some ''st'') [])])
       [] demo_session)
     = Some [Sent (Send_request STICKER (Some ''abc123'')
                [(''reply_to_message_id'', VNat None), (''disable_notification'', VBool False),
                 (''reply_markup'', VMarkup None)]) 7,
             Sent (Send_request STICKER (Some ''abc123'')
                [(''reply_to_message_id'', VNat None), (''disable_notification'', VBool False),
                 (''reply_markup'', VMarkup None)]) 7]"
  by code_simp+

section \<open>Formatting\<close>




section \<open>Keyboards\<close>

text \<open>
  The pairing puts the labels, in order, into rows of one or two. Flat choices are
  paired, and with both \<open>choices\<close> and \<open>keyboard\<close> given only the
  inline keyboard of the choices is built.
\<close>
lemma pair_rows_rec:
  "pair_rows [] = []"
  "pair_rows [x] = [[x]]"
  "pair_rows (x # y # zs) = [x, y] # pair_rows zs"
proof -
  show "pair_rows [] = []" by (simp add: pair_rows_def)
  show "pair_rows [x] = [[x]]" by (simp add: pair_rows_def)
  have n: "(length (x # y # zs) + 1) div 2 = Suc ((length zs + 1) div 2)" by simp
  have u: "[0 ..< Suc ((length zs + 1) div 2)] = 0 # map Suc [0 ..< (length zs + 1) div 2]"
    by (simp add: upt_conv_Cons map_Suc_upt del: upt_Suc)
  show "pair_rows (x # y # zs) = [x, y] # pair_rows zs"
    unfolding pair_rows_def n u by (simp add: comp_def)
qed

lemma pair_rows_concat: "concat (pair_rows xs) = xs"
  by (induction xs rule: induct_list012) (simp_all add: pair_rows_rec)

lemma pair_rows_widths: "r \<in> set (pair_rows xs) \<Longrightarrow> 0 < length r \<and> length r \<le> 2"
  by (induction xs rule: induct_list012) (auto simp: pair_rows_rec)

lemma pair_rows_three: "pair_rows [''A'', ''B'', ''C''] = [[''A'', ''B''], [''C'']]"
  by code_simp

lemma get_config_flat_choices:
  assumes "choices a = Some (Flat (c # cs))"
  shows "fst (get_config cfg cx a) = set_choices (Some (Rows (pair_rows (c # cs)))) a"
    and "\<exists>kw. snd (get_config cfg cx a) = Inr kw
             \<and> map_of kw ''reply_markup''
                 = Some (VMarkup (Some (InlineKeyboardMarkup
                     (map (map (\<lambda>t. (t, t))) (pair_rows (c # cs))))))"
  using assms by (simp_all add: get_config_def config_dict_def Let_def)

lemma get_config_choices_first:
  "get_config demo_config demo_ctx
     (Answer (Some ''pick'') [] (Some (Flat [''A'', ''B'', ''C''])) None
        (Some (Flat [''X'', ''Y''])) None None None 0)
   = (Answer (Some ''pick'') [] (Some (Rows [[''A'', ''B''], [''C'']])) None
        (Some (Flat [''X'', ''Y''])) None None None 0,
      Inr [(''parse_mode'', VStr None), (''reply_to_message_id'', VNat None),
           (''disable_web_page_preview'', VBool False), (''disable_notification'', VBool False),
           (''reply_markup'',
            VMarkup (Some (InlineKeyboardMarkup [[(''A'', ''A''), (''B'', ''B'')], [(''C'', ''C'')]]))),
           (''caption'', VStr None)])"
  by code_simp

text \<open>
  C8. A flat sequence of labels given as \<open>keyboard\<close> is claimed to be paired into rows of
  two like one given as \<open>choices\<close>. The \<open>keyboard\<close> branch of \<open>_get_config\<close> computes the
  rows from \<open>self.choices\<close>, which is \<open>None\<close> in that branch, so \<open>len(self.choices)\<close>
  raises \<open>TypeError\<close> and no keyboard is built. Evaluated on
  \<open>Answer('pick', keyboard=['A', 'B', 'C'])\<close>.
\<close>
theorem get_config_flat_keyboard_raises:
  "get_config demo_config demo_ctx
     (Answer (Some ''pick'') [] None None (Some (Flat [''A'', ''B'', ''C''])) None None None 0)
   = (Answer (Some ''pick'') [] None None (Some (Flat [''A'', ''B'', ''C''])) None None None 0,
      Inl (Exn TypeError [''object of type NoneType has no len()'']))"
  by (simp add: get_config_def)

section \<open>What sending does to the session\<close>

text \<open>
  Sending never calls a user's callable, and a key enters \<open>query_callback\<close> only as the
  message id of a send that the trace records.
\<close>
lemma apply_language_events:
  "fst (apply_language E cfg C cx a) = [] \<or> fst (apply_language E cfg C cx a) = [Logged CRITICAL]"
  by (auto simp: apply_language_def Let_def split: sum.splits)

lemma msg_events:
  "msg E cfg C cx a = (a', evs, r) \<Longrightarrow> evs = [] \<or> evs = [Logged CRITICAL]"
  using apply_language_events[of E cfg C cx a]
  by (auto simp: msg_def split: prod.splits sum.splits option.splits if_splits)

lemma transport_send_events:
  "transport_send E req = (evs, r) \<Longrightarrow>
     (\<forall>ev \<in> set evs. \<not> is_Called ev) \<and> (\<forall>mid. r = Inr (Some mid) \<longrightarrow> Sent req mid \<in> set evs)"
  by (auto simp: transport_send_def split: sum.splits)

lemma send_by_kind_events:
  "send_by_kind E k m a kw = (evs, r) \<Longrightarrow>
     (\<forall>ev \<in> set evs. \<not> is_Called ev)
     \<and> (\<forall>mid. r = Inr (Some mid) \<longrightarrow> (\<exists>req. Sent req mid \<in> set evs))"
  unfolding send_by_kind_def
  by (auto dest!: transport_send_events split: if_splits option.splits)

lemma Answer_send_events:
  assumes "Answer_send E cfg C cx a = (a', evs, r)"
  shows "(\<forall>ev \<in> set evs. \<not> is_Called ev)
         \<and> (\<forall>mid. r = Inr (Some mid) \<longrightarrow> (\<exists>req. Sent req mid \<in> set evs))"
proof -
  obtain a1 evs1 r1 where m: "msg E cfg C cx a = (a1, evs1, r1)" by (cases "msg E cfg C cx a")
  have e1: "\<forall>ev \<in> set evs1. \<not> is_Called ev" using msg_events[OF m] by auto
  show ?thesis
  proof (cases r1)
    case (Inl e)
    with assms m e1 show ?thesis by (auto simp: Answer_send_def)
  next
    case (Inr mm)
    obtain a2 r2 where g: "get_config cfg cx a1 = (a2, r2)" by (cases "get_config cfg cx a1")
    show ?thesis
    proof (cases r2)
      case (Inl e)
      with assms m Inr g e1 show ?thesis by (auto simp: Answer_send_def)
    next
      case kw: (Inr kw)
      show ?thesis
      proof (cases "media_type a2")
        case None
        with assms m Inr g kw e1 show ?thesis by (auto simp: Answer_send_def)
      next
        case (Some k)
        obtain evs2 r3 where sk: "send_by_kind E k mm a2 kw = (evs2, r3)"
          by (cases "send_by_kind E k mm a2 kw")
        from assms m Inr g kw Some sk have "evs = evs1 @ evs2" "r = r3"
          by (simp_all add: Answer_send_def)
        with e1 send_by_kind_events[OF sk] show ?thesis by auto
      qed
    qed
  qed
qed

lemma effects_compose:
  assumes 1: "trace s1 = trace s @ rest1" "\<forall>ev \<in> set rest1. \<not> is_Called ev"
      "\<forall>k \<in> fst ` set (query_callback s1).
          k \<in> fst ` set (query_callback s) \<or> (\<exists>req. Sent req k \<in> set rest1)"
    and 2: "\<exists>rest. trace s' = trace s1 @ rest \<and> (\<forall>ev \<in> set rest. \<not> is_Called ev)
        \<and> (\<forall>k \<in> fst ` set (query_callback s').
              k \<in> fst ` set (query_callback s1) \<or> (\<exists>req. Sent req k \<in> set rest))"
  shows "\<exists>rest. trace s' = trace s @ rest \<and> (\<forall>ev \<in> set rest. \<not> is_Called ev)
        \<and> (\<forall>k \<in> fst ` set (query_callback s').
              k \<in> fst ` set (query_callback s) \<or> (\<exists>req. Sent req k \<in> set rest))"
proof -
  from 2 obtain rest2 where r2: "trace s' = trace s1 @ rest2" "\<forall>ev \<in> set rest2. \<not> is_Called ev"
    "\<forall>k \<in> fst ` set (query_callback s').
        k \<in> fst ` set (query_callback s1) \<or> (\<exists>req. Sent req k \<in> set rest2)" by blast
  have t: "trace s' = trace s @ (rest1 @ rest2)" using 1(1) r2(1) by simp
  have c: "\<forall>ev \<in> set (rest1 @ rest2). \<not> is_Called ev" using 1(2) r2(2) by auto
  have k: "\<forall>k \<in> fst ` set (query_callback s').
              k \<in> fst ` set (query_callback s) \<or> (\<exists>req. Sent req k \<in> set (rest1 @ rest2))"
  proof
    fix k assume "k \<in> fst ` set (query_callback s')"
    with r2(3) have "k \<in> fst ` set (query_callback s1) \<or> (\<exists>req. Sent req k \<in> set rest2)" by blast
    then show "k \<in> fst ` set (query_callback s) \<or> (\<exists>req. Sent req k \<in> set (rest1 @ rest2))"
    proof
      assume "k \<in> fst ` set (query_callback s1)"
      with 1(3) have "k \<in> fst ` set (query_callback s) \<or> (\<exists>req. Sent req k \<in> set rest1)" by blast
      then show ?thesis by auto
    next
      assume "\<exists>req. Sent req k \<in> set rest2"
      then show ?thesis by auto
    qed
  qed
  from t c k show ?thesis by blast
qed

lemma handle_answer_effects:
  "handle_answer E cfg C cx objs vs s = (s', r) \<Longrightarrow>
     (\<exists>rest. trace s' = trace s @ rest \<and> (\<forall>ev \<in> set rest. \<not> is_Called ev)
        \<and> (\<forall>k \<in> fst ` set (query_callback s').
              k \<in> fst ` set (query_callback s) \<or> (\<exists>req. Sent req k \<in> set rest)))
     \<and> user_id s' = user_id s"
proof (induction vs arbitrary: s objs)
  case Nil
  then show ?case by simp
next
  case (Cons v vs)
  show ?case
  proof (cases v)
    case (PAnswer i a)
    obtain a1 evs r1 where as: "Answer_send E cfg C cx (current objs i a) = (a1, evs, r1)"
      by (cases "Answer_send E cfg C cx (current objs i a)")
    note ev = Answer_send_events[OF as]
    show ?thesis
    proof (cases r1)
      case (Inl e)
      with Cons.prems PAnswer as have s': "s' = emit evs s" by simp
      have "trace s' = trace s @ evs \<and> (\<forall>ev \<in> set evs. \<not> is_Called ev)
            \<and> (\<forall>k \<in> fst ` set (query_callback s').
                  k \<in> fst ` set (query_callback s) \<or> (\<exists>req. Sent req k \<in> set evs))"
        using s' ev by (simp add: emit_def)
      then show ?thesis using s' by (auto simp: emit_def)
    next
      case (Inr sent)
      let ?s1 = "(emit evs s)\<lparr>last_sent := Some (a1, sent)\<rparr>"
      show ?thesis
      proof (cases "callback a1")
        case None
        with Cons.prems PAnswer as Inr
        have "handle_answer E cfg C cx (AList.update i a1 objs) vs ?s1 = (s', r)" by simp
        note ih = Cons.IH[OF this]
        have "\<exists>rest. trace s' = trace s @ rest \<and> (\<forall>ev \<in> set rest. \<not> is_Called ev)
          \<and> (\<forall>k \<in> fst ` set (query_callback s').
                k \<in> fst ` set (query_callback s) \<or> (\<exists>req. Sent req k \<in> set rest))"
        proof (rule effects_compose[where ?s1.0 = ?s1 and ?rest1.0 = evs])
          show "trace ?s1 = trace s @ evs" by (simp add: emit_def)
          show "\<forall>ev \<in> set evs. \<not> is_Called ev" using ev by simp
          show "\<forall>k \<in> fst ` set (query_callback ?s1).
                  k \<in> fst ` set (query_callback s) \<or> (\<exists>req. Sent req k \<in> set evs)"
            by (simp add: emit_def)
          show "\<exists>rest. trace s' = trace ?s1 @ rest \<and> (\<forall>ev \<in> set rest. \<not> is_Called ev)
            \<and> (\<forall>k \<in> fst ` set (query_callback s').
                  k \<in> fst ` set (query_callback ?s1) \<or> (\<exists>req. Sent req k \<in> set rest))"
            using ih by blast
        qed
        moreover from ih have "user_id s' = user_id s" by (simp add: emit_def)
        ultimately show ?thesis by blast
      next
        case (Some cb)
        show ?thesis
        proof (cases sent)
          case None
          with Cons.prems PAnswer as Inr Some have s': "s' = ?s1" by simp
          have "trace s' = trace s @ evs \<and> (\<forall>ev \<in> set evs. \<not> is_Called ev)
            \<and> (\<forall>k \<in> fst ` set (query_callback s').
                  k \<in> fst ` set (query_callback s) \<or> (\<exists>req. Sent req k \<in> set evs))"
            using s' ev by (simp add: emit_def)
          then show ?thesis using s' by (auto simp: emit_def)
        next
          case mid: (Some mid)
          let ?s2 = "?s1\<lparr>query_callback := AList.update mid cb (query_callback ?s1)\<rparr>"
          from Cons.prems PAnswer as Inr Some mid
          have "handle_answer E cfg C cx (AList.update i a1 objs) vs ?s2 = (s', r)" by simp
          note ih = Cons.IH[OF this]
          from ev Inr mid obtain req where req: "Sent req mid \<in> set evs" by blast
          have keys: "fst ` set (query_callback ?s2) = insert mid (fst ` set (query_callback s))"
            by (simp add: emit_def dom_update)
          have "\<exists>rest. trace s' = trace s @ rest \<and> (\<forall>ev \<in> set rest. \<not> is_Called ev)
            \<and> (\<forall>k \<in> fst ` set (query_callback s').
                  k \<in> fst ` set (query_callback s) \<or> (\<exists>req. Sent req k \<in> set rest))"
          proof (rule effects_compose[where ?s1.0 = ?s2 and ?rest1.0 = evs])
            show "trace ?s2 = trace s @ evs" by (simp add: emit_def)
            show "\<forall>ev \<in> set evs. \<not> is_Called ev" using ev by simp
            show "\<forall>k \<in> fst ` set (query_callback ?s2).
                    k \<in> fst ` set (query_callback s) \<or> (\<exists>req. Sent req k \<in> set evs)"
              unfolding keys using req by blast
            show "\<exists>rest. trace s' = trace ?s2 @ rest \<and> (\<forall>ev \<in> set rest. \<not> is_Called ev)
              \<and> (\<forall>k \<in> fst ` set (query_callback s').
                    k \<in> fst ` set (query_callback ?s2) \<or> (\<exists>req. Sent req k \<in> set rest))"
              using ih by blast
          qed
          moreover from ih have "user_id s' = user_id s" by (simp add: emit_def)
          ultimately show ?thesis by blast
        qed
      qed
    qed
  qed (use Cons.prems in auto)
qed

lemma try_block_effects:
  assumes "try_block E cfg C cx v s = (s', r)"
  shows "(\<exists>rest. trace s' = trace s @ rest \<and> (\<forall>ev \<in> set rest. \<not> is_Called ev)
        \<and> (\<forall>k \<in> fst ` set (query_callback s').
              k \<in> fst ` set (query_callback s) \<or> (\<exists>req. Sent req k \<in> set rest)))
     \<and> user_id s' = user_id s"
proof (cases "convert_answer E v")
  case (Inl e)
  with assms show ?thesis by (simp add: try_block_def)
next
  case (Inr w)
  with assms have "handle_answer E cfg C cx [] (answers_of w) s = (s', r)"
    by (simp add: try_block_def)
  then show ?thesis by (rule handle_answer_effects)
qed

lemma log_effects:
  assumes "\<exists>rest. trace s1 = trace s @ rest \<and> (\<forall>ev \<in> set rest. \<not> is_Called ev)
        \<and> (\<forall>k \<in> fst ` set (query_callback s1).
              k \<in> fst ` set (query_callback s) \<or> (\<exists>req. Sent req k \<in> set rest))"
  shows "\<exists>rest. trace (log l s1) = trace s @ rest \<and> (\<forall>ev \<in> set rest. \<not> is_Called ev)
        \<and> (\<forall>k \<in> fst ` set (query_callback (log l s1)).
              k \<in> fst ` set (query_callback s) \<or> (\<exists>req. Sent req k \<in> set rest))"
proof -
  from assms obtain rest where r: "trace s1 = trace s @ rest" "\<forall>ev \<in> set rest. \<not> is_Called ev"
    "\<forall>k \<in> fst ` set (query_callback s1).
        k \<in> fst ` set (query_callback s) \<or> (\<exists>req. Sent req k \<in> set rest)" by blast
  show ?thesis
  proof (rule effects_compose[where ?s1.0 = s1 and ?rest1.0 = rest])
    show "\<exists>rest. trace (log l s1) = trace s1 @ rest \<and> (\<forall>ev \<in> set rest. \<not> is_Called ev)
        \<and> (\<forall>k \<in> fst ` set (query_callback (log l s1)).
              k \<in> fst ` set (query_callback s1) \<or> (\<exists>req. Sent req k \<in> set rest))"
      by (rule exI[of _ "[Logged l]"]) (simp add: log_def)
  qed (use r in auto)
qed

lemma prepare_answer_effects:
  "prepare_answer n E cfg C cx v lg s = Some (s', r) \<Longrightarrow>
     (\<exists>rest. trace s' = trace s @ rest \<and> (\<forall>ev \<in> set rest. \<not> is_Called ev)
        \<and> (\<forall>k \<in> fst ` set (query_callback s').
              k \<in> fst ` set (query_callback s) \<or> (\<exists>req. Sent req k \<in> set rest)))
     \<and> user_id s' = user_id s"
proof (induction n arbitrary: v lg s)
  case 0
  then show ?case by simp
next
  case (Suc n)
  show ?case
  proof (cases "v = PNone")
    case True
    with Suc.prems have "s' = log INFO s" by simp
    then show ?thesis
      by (auto simp: log_def intro!: exI[of _ "[Logged INFO]"])
  next
    case False
    obtain s1 r1 where tb: "try_block E cfg C cx v s = (s1, r1)"
      by (cases "try_block E cfg C cx v s")
    note e1 = try_block_effects[OF tb]
    then have x1: "\<exists>rest. trace s1 = trace s @ rest \<and> (\<forall>ev \<in> set rest. \<not> is_Called ev)
        \<and> (\<forall>k \<in> fst ` set (query_callback s1).
              k \<in> fst ` set (query_callback s) \<or> (\<exists>req. Sent req k \<in> set rest))"
      and u1: "user_id s1 = user_id s" by blast+
    from False have unfold: "prepare_answer (Suc n) E cfg C cx v lg s =
        (case r1 of
           None \<Rightarrow> Some (if length lg > 0 then log INFO s1 else s1, None)
         | Some e \<Rightarrow>
             (case clause_message e of
                Inl e' \<Rightarrow> Some (s1, Some e')
              | Inr m \<Rightarrow>
                  (case error_reply cfg of
                     None \<Rightarrow> Some (log WARNING s1, None)
                   | Some reply \<Rightarrow>
                       prepare_answer n E cfg C cx (PAnswer 0 (Answer_init (Some reply) [])) []
                         (log WARNING s1))))"
      using tb by (cases v) simp_all
    show ?thesis
    proof (cases r1)
      case None
      with Suc.prems unfold have "s' = log INFO s1 \<or> s' = s1" by (auto split: if_splits)
      then show ?thesis using x1 u1 log_effects[OF x1, of INFO] by (auto simp: log_def)
    next
      case (Some e)
      show ?thesis
      proof (cases "clause_message e")
        case (Inl e')
        with Suc.prems unfold Some have "s' = s1" by simp
        with x1 u1 show ?thesis by simp
      next
        case (Inr m)
        show ?thesis
        proof (cases "error_reply cfg")
          case None
          with Suc.prems unfold Some Inr have "s' = log WARNING s1" by simp
          then show ?thesis using u1 log_effects[OF x1, of WARNING] by (auto simp: log_def)
        next
          case reply: (Some reply)
          with Suc.prems unfold Some Inr
          have "prepare_answer n E cfg C cx (PAnswer 0 (Answer_init (Some reply) [])) []
                  (log WARNING s1) = Some (s', r)" by simp
          note ih = Suc.IH[OF this]
          from log_effects[OF x1, of WARNING] obtain rest1 where
            l: "trace (log WARNING s1) = trace s @ rest1" "\<forall>ev \<in> set rest1. \<not> is_Called ev"
            "\<forall>k \<in> fst ` set (query_callback (log WARNING s1)).
                k \<in> fst ` set (query_callback s) \<or> (\<exists>req. Sent req k \<in> set rest1)" by blast
          have "\<exists>rest. trace s' = trace s @ rest \<and> (\<forall>ev \<in> set rest. \<not> is_Called ev)
            \<and> (\<forall>k \<in> fst ` set (query_callback s').
                  k \<in> fst ` set (query_callback s) \<or> (\<exists>req. Sent req k \<in> set rest))"
            by (rule effects_compose[OF l]) (use ih in blast)
          moreover from ih u1 have "user_id s' = user_id s" by (simp add: log_def)
          ultimately show ?thesis by blast
        qed
      qed
    qed
  qed
qed

text \<open>
  With no error reply configured the pipeline returns at any depth from one on. A text
  message calls the handler that routing selected, with the captures as keyword
  arguments, and calls nothing else.
\<close>
lemma prepare_answer_returns:
  assumes "error_reply cfg = None"
  shows "\<exists>res. prepare_answer (Suc n) E cfg C cx v lg s = Some res"
proof (cases "v = PNone")
  case True
  then show ?thesis by simp
next
  case False
  obtain s1 r1 where tb: "try_block E cfg C cx v s = (s1, r1)"
    by (cases "try_block E cfg C cx v s")
  with False assms show ?thesis
    by (cases v) (auto split: option.splits sum.splits)
qed

lemma handle_text_message_returns:
  assumes "error_reply cfg = None"
  shows "\<exists>res. handle_text_message (Suc n) E cfg C cx t s = Some res"
proof -
  obtain f kw where r: "route E C t = (f, kw)" by (cases "route E C t")
  show ?thesis
  proof (cases "call E f [] kw")
    case (Inl e)
    with r assms show ?thesis
      by (cases "error_message e") (simp_all add: handle_text_message_def handle_error_def Let_def)
  next
    case (Inr v)
    with r prepare_answer_returns[OF assms, of n E C cx v] show ?thesis
      by (simp add: handle_text_message_def Let_def del: prepare_answer.simps)
  qed
qed

lemma handle_error_effects:
  assumes "handle_error n E cfg C cx s = Some (s', r)"
  shows "\<exists>rest. trace s' = trace s @ rest \<and> (\<forall>ev \<in> set rest. \<not> is_Called ev)"
proof (cases "error_reply cfg")
  case None
  with assms show ?thesis by (simp add: handle_error_def)
next
  case (Some reply)
  with assms have "prepare_answer n E cfg C cx (PAnswer 0 (Answer_init (Some reply) [])) [] s
                   = Some (s', r)" by (simp add: handle_error_def)
  from prepare_answer_effects[OF this] show ?thesis by blast
qed

lemma handle_text_message_calls_route:
  assumes run: "handle_text_message n E cfg C cx t s = Some (s', r)"
    and rt: "route E C t = (f, kw)"
  shows "\<exists>rest. trace s' = trace s @ Called f [] kw # rest \<and> (\<forall>ev \<in> set rest. \<not> is_Called ev)"
proof -
  let ?s0 = "emit [Called f [] kw] s"
  have "\<exists>rest. trace s' = trace ?s0 @ rest \<and> (\<forall>ev \<in> set rest. \<not> is_Called ev)"
  proof (cases "call E f [] kw")
    case (Inl e)
    show ?thesis
    proof (cases "error_message e")
      case e': (Inl e')
      with run rt Inl have "s' = ?s0" by (simp add: handle_text_message_def Let_def)
      then show ?thesis by simp
    next
      case (Inr m)
      with run rt Inl have "handle_error n E cfg C cx (log WARNING ?s0) = Some (s', r)"
        by (simp add: handle_text_message_def Let_def)
      from handle_error_effects[OF this] obtain rest where
        "trace s' = trace (log WARNING ?s0) @ rest" "\<forall>ev \<in> set rest. \<not> is_Called ev" by blast
      then have "trace s' = trace ?s0 @ (Logged WARNING # rest)"
        "\<forall>ev \<in> set (Logged WARNING # rest). \<not> is_Called ev" by (simp_all add: log_def)
      then show ?thesis by blast
    qed
  next
    case (Inr v)
    with run rt have "prepare_answer n E cfg C cx v (''Message by user: '' @ t) ?s0 = Some (s', r)"
      by (simp add: handle_text_message_def Let_def)
    from prepare_answer_effects[OF this] show ?thesis by blast
  qed
  then show ?thesis by (simp add: emit_def)
qed

lemma calls_append:
  "trace s' = trace s @ rest \<Longrightarrow> \<forall>ev \<in> set rest. \<not> is_Called ev \<Longrightarrow> calls s' = calls s"
  by (simp add: calls_def)

lemma replace_query_step_effects:
  assumes "replace_query_step E cfg C cx q s = (s', r)"
  shows "(\<exists>rest. trace s' = trace s @ rest \<and> (\<forall>ev \<in> set rest. \<not> is_Called ev))
         \<and> query_callback s' = query_callback s \<and> user_id s' = user_id s"
proof (cases "last_sent s")
  case None
  with assms show ?thesis by (simp add: replace_query_step_def)
next
  case (Some p)
  obtain a sent where p: "p = (a, sent)" by (cases p)
  obtain a1 evs r1 where m: "msg E cfg C cx a = (a1, evs, r1)" by (cases "msg E cfg C cx a")
  from msg_events[OF m] have ev: "\<forall>ev \<in> set evs. \<not> is_Called ev" by auto
  show ?thesis
  proof (cases r1)
    case (Inl e)
    with assms Some p m ev show ?thesis
      by (auto simp: replace_query_step_def emit_def)
  next
    case (Inr mm)
    with assms Some p m ev show ?thesis
      by (auto simp: replace_query_step_def emit_def Let_def)
  qed
qed

section \<open>Callback queries\<close>

lemma on_callback_query_after_call:
  assumes "(case answer_callback_query E (q_id q) of
              Some e \<Rightarrow> Some (emit [AnswerCallbackQuery (q_id q)] s1, Some e)
            | None \<Rightarrow>
                (case (if replace_query cfg
                       then replace_query_step E cfg C cx q (emit [AnswerCallbackQuery (q_id q)] s1)
                       else (emit [AnswerCallbackQuery (q_id q)] s1, None)) of
                   (s3, Some e) \<Rightarrow> Some (s3, Some e)
                 | (s3, None) \<Rightarrow>
                     (case answer of
                        PNone \<Rightarrow> Some (s3, None)
                      | _ \<Rightarrow> prepare_answer n E cfg C cx answer [] s3))) = Some (s', r)"
  shows "(\<exists>rest. trace s' = trace s1 @ AnswerCallbackQuery (q_id q) # rest
                 \<and> (\<forall>ev \<in> set rest. \<not> is_Called ev)
                 \<and> (\<forall>k \<in> fst ` set (query_callback s').
                       k \<in> fst ` set (query_callback s1) \<or> (\<exists>req. Sent req k \<in> set rest)))
         \<and> (answer = PNone \<longrightarrow> query_callback s' = query_callback s1)"
proof (cases "answer_callback_query E (q_id q)")
  case (Some e)
  with assms have "s' = emit [AnswerCallbackQuery (q_id q)] s1" by simp
  then show ?thesis by (auto simp: emit_def)
next
  case None
  let ?s2 = "emit [AnswerCallbackQuery (q_id q)] s1"
  obtain s3 r3 where st: "(if replace_query cfg then replace_query_step E cfg C cx q ?s2
                           else (?s2, None)) = (s3, r3)"
    by (cases "if replace_query cfg then replace_query_step E cfg C cx q ?s2 else (?s2, None)")
  have e3: "(\<exists>rest. trace s3 = trace ?s2 @ rest \<and> (\<forall>ev \<in> set rest. \<not> is_Called ev))
         \<and> query_callback s3 = query_callback ?s2"
  proof (cases "replace_query cfg")
    case True
    with st replace_query_step_effects[of E cfg C cx q ?s2 s3 r3] show ?thesis by simp
  next
    case False
    with st show ?thesis by auto
  qed
  then obtain rest3 where r3: "trace s3 = trace s1 @ AnswerCallbackQuery (q_id q) # rest3"
    "\<forall>ev \<in> set rest3. \<not> is_Called ev" and k3: "query_callback s3 = query_callback s1"
    by (auto simp: emit_def)
  have stop: "s' = s3 \<Longrightarrow> ?thesis"
  proof -
    assume "s' = s3"
    with r3 k3 have "trace s' = trace s1 @ AnswerCallbackQuery (q_id q) # rest3
                 \<and> (\<forall>ev \<in> set rest3. \<not> is_Called ev)
                 \<and> (\<forall>k \<in> fst ` set (query_callback s').
                       k \<in> fst ` set (query_callback s1) \<or> (\<exists>req. Sent req k \<in> set rest3))"
      and "query_callback s' = query_callback s1" by simp_all
    then show ?thesis by blast
  qed
  show ?thesis
  proof (cases r3)
    case (Some e)
    with assms None st have "s' = s3" by simp
    then show ?thesis by (rule stop)
  next
    case no: None
    show ?thesis
    proof (cases "answer = PNone")
      case True
      with assms None st no have "s' = s3" by simp
      then show ?thesis by (rule stop)
    next
      case False
      with assms None st no have "prepare_answer n E cfg C cx answer [] s3 = Some (s', r)"
        by (cases answer) simp_all
      from prepare_answer_effects[OF this]
      obtain rest4 where r4: "trace s' = trace s3 @ rest4" "\<forall>ev \<in> set rest4. \<not> is_Called ev"
        "\<forall>k \<in> fst ` set (query_callback s').
            k \<in> fst ` set (query_callback s3) \<or> (\<exists>req. Sent req k \<in> set rest4)" by blast
      from r3 r4 k3 have "trace s' = trace s1 @ AnswerCallbackQuery (q_id q) # (rest3 @ rest4)
                 \<and> (\<forall>ev \<in> set (rest3 @ rest4). \<not> is_Called ev)
                 \<and> (\<forall>k \<in> fst ` set (query_callback s').
                       k \<in> fst ` set (query_callback s1)
                       \<or> (\<exists>req. Sent req k \<in> set (rest3 @ rest4)))"
        by auto
      with False show ?thesis by blast
    qed
  qed
qed

lemma on_callback_query_absent:
  assumes "map_of (query_callback s) (q_message_id q) = None"
  shows "\<exists>s' r. on_callback_query n E cfg C cx q s = Some (s', r)
           \<and> query_callback s' = query_callback s \<and> calls s' = calls s
           \<and> AnswerCallbackQuery (q_id q) \<in> set (trace s')"
proof -
  from assms have "q_message_id q \<notin> fst ` set (query_callback s)"
    by (simp add: map_of_eq_None_iff)
  then have d: "AList.delete (q_message_id q) (query_callback s) = query_callback s"
    by simp
  have unfold: "on_callback_query n E cfg C cx q s =
          (case answer_callback_query E (q_id q) of
              Some e \<Rightarrow> Some (emit [AnswerCallbackQuery (q_id q)] s, Some e)
            | None \<Rightarrow>
                (case (if replace_query cfg
                       then replace_query_step E cfg C cx q (emit [AnswerCallbackQuery (q_id q)] s)
                       else (emit [AnswerCallbackQuery (q_id q)] s, None)) of
                   (s3, Some e) \<Rightarrow> Some (s3, Some e)
                 | (s3, None) \<Rightarrow>
                     (case PNone of
                        PNone \<Rightarrow> Some (s3, None)
                      | _ \<Rightarrow> prepare_answer n E cfg C cx PNone [] s3)))"
    using assms d by (simp add: on_callback_query_def Let_def)
  have "\<exists>res. on_callback_query n E cfg C cx q s = Some res"
    unfolding unfold by (auto split: option.splits prod.splits)
  then obtain s' r where res: "on_callback_query n E cfg C cx q s = Some (s', r)" by auto
  from on_callback_query_after_call[OF res[unfolded unfold]]
  obtain rest where "trace s' = trace s @ AnswerCallbackQuery (q_id q) # rest"
    "\<forall>ev \<in> set rest. \<not> is_Called ev" "query_callback s' = query_callback s"
    by blast
  then have "query_callback s' = query_callback s \<and> calls s' = calls s
           \<and> AnswerCallbackQuery (q_id q) \<in> set (trace s')"
    by (simp add: calls_def)
  with res show ?thesis by blast
qed

lemma on_callback_query_raises:
  assumes "map_of (query_callback s) (q_message_id q) = Some f"
    and "call E f [q_data q] [] = Inl e"
  shows "on_callback_query n E cfg C cx q s
         = Some (s\<lparr>query_callback := AList.delete (q_message_id q) (query_callback s),
                   trace := trace s @ [Called f [q_data q] []]\<rparr>, Some e)"
  using assms by (simp add: on_callback_query_def emit_def)

lemma on_callback_query_returns:
  assumes "map_of (query_callback s) (q_message_id q) = Some f"
    and "call E f [q_data q] [] = Inr v"
    and "on_callback_query n E cfg C cx q s = Some (s', r)"
  shows "\<exists>rest. trace s' = trace s @ Called f [q_data q] [] # AnswerCallbackQuery (q_id q) # rest
                 \<and> (\<forall>ev \<in> set rest. \<not> is_Called ev)
                 \<and> (\<forall>k \<in> fst ` set (query_callback s').
                       (k \<in> fst ` set (query_callback s) \<and> k \<noteq> q_message_id q)
                       \<or> (\<exists>req. Sent req k \<in> set rest))"
proof -
  let ?s1 = "emit [Called f [q_data q] []]
               (s\<lparr>query_callback := AList.delete (q_message_id q) (query_callback s)\<rparr>)"
  have unfold: "on_callback_query n E cfg C cx q s =
          (case answer_callback_query E (q_id q) of
              Some e \<Rightarrow> Some (emit [AnswerCallbackQuery (q_id q)] ?s1, Some e)
            | None \<Rightarrow>
                (case (if replace_query cfg
                       then replace_query_step E cfg C cx q (emit [AnswerCallbackQuery (q_id q)] ?s1)
                       else (emit [AnswerCallbackQuery (q_id q)] ?s1, None)) of
                   (s3, Some e) \<Rightarrow> Some (s3, Some e)
                 | (s3, None) \<Rightarrow>
                     (case v of
                        PNone \<Rightarrow> Some (s3, None)
                      | _ \<Rightarrow> prepare_answer n E cfg C cx v [] s3)))"
    using assms(1,2) by (simp add: on_callback_query_def Let_def)
  have keys: "fst ` set (query_callback ?s1) = fst ` set (query_callback s) - {q_message_id q}"
    by (auto simp: emit_def AList.delete_eq)
  from on_callback_query_after_call[OF assms(3)[unfolded unfold]]
  obtain rest where a: "trace s' = trace ?s1 @ AnswerCallbackQuery (q_id q) # rest"
    "\<forall>ev \<in> set rest. \<not> is_Called ev"
    "\<forall>k \<in> fst ` set (query_callback s').
        k \<in> fst ` set (query_callback ?s1) \<or> (\<exists>req. Sent req k \<in> set rest)" by blast
  from a(1) have "trace s' = trace s @ Called f [q_data q] [] # AnswerCallbackQuery (q_id q) # rest"
    by (simp add: emit_def)
  moreover from a(3) keys
  have "\<forall>k \<in> fst ` set (query_callback s').
          (k \<in> fst ` set (query_callback s) \<and> k \<noteq> q_message_id q)
          \<or> (\<exists>req. Sent req k \<in> set rest)" by auto
  ultimately show ?thesis using a(2) by blast
qed

lemma on_callback_query_step:
  assumes run: "on_callback_query n E cfg C cx q s = Some (s', r)"
    and fresh: "\<forall>req. Sent req (q_message_id q) \<notin> set (drop (length (trace s)) (trace s'))"
  shows "q_message_id q \<notin> fst ` set (query_callback s')
         \<and> length (calls s') =
             length (calls s) + (if q_message_id q \<in> fst ` set (query_callback s) then 1 else 0)"
proof (cases "map_of (query_callback s) (q_message_id q)")
  case None
  from on_callback_query_absent[OF None, of n E cfg C cx] run
  have "query_callback s' = query_callback s" "calls s' = calls s" by auto
  moreover from None have "q_message_id q \<notin> fst ` set (query_callback s)"
    by (simp add: map_of_eq_None_iff)
  ultimately show ?thesis by simp
next
  case (Some f)
  then have mem: "q_message_id q \<in> fst ` set (query_callback s)"
    by (metis map_of_eq_None_iff option.distinct(1))
  show ?thesis
  proof (cases "call E f [q_data q] []")
    case (Inl e)
    from on_callback_query_raises[OF Some Inl, of n cfg C cx] run
    have s': "s' = s\<lparr>query_callback := AList.delete (q_message_id q) (query_callback s),
                   trace := trace s @ [Called f [q_data q] []]\<rparr>" by simp
    then have "q_message_id q \<notin> fst ` set (query_callback s')"
      by (simp add: delete_notin_dom)
    moreover from s' have "length (calls s') = length (calls s) + 1" by (simp add: calls_def)
    ultimately show ?thesis using mem by simp
  next
    case (Inr v)
    from on_callback_query_returns[OF Some Inr run]
    obtain rest where rt: "trace s' = trace s @ Called f [q_data q] [] # AnswerCallbackQuery (q_id q) # rest"
      "\<forall>ev \<in> set rest. \<not> is_Called ev"
      "\<forall>k \<in> fst ` set (query_callback s').
          (k \<in> fst ` set (query_callback s) \<and> k \<noteq> q_message_id q)
          \<or> (\<exists>req. Sent req k \<in> set rest)" by blast
    from rt(1,2) have "length (calls s') = length (calls s) + 1" by (simp add: calls_def)
    moreover from rt(1) fresh have "\<forall>req. Sent req (q_message_id q) \<notin> set rest" by simp
    with rt(3) have "q_message_id q \<notin> fst ` set (query_callback s')" by blast
    ultimately show ?thesis using mem by simp
  qed
qed

lemma on_callback_query_trace:
  assumes "on_callback_query n E cfg C cx q s = Some (s', r)"
  shows "\<exists>rest. trace s' = trace s @ rest"
proof (cases "map_of (query_callback s) (q_message_id q)")
  case None
  then have "q_message_id q \<notin> fst ` set (query_callback s)"
    by (simp add: map_of_eq_None_iff)
  then have d: "AList.delete (q_message_id q) (query_callback s) = query_callback s" by simp
  have unfold: "on_callback_query n E cfg C cx q s =
          (case answer_callback_query E (q_id q) of
              Some e \<Rightarrow> Some (emit [AnswerCallbackQuery (q_id q)] s, Some e)
            | None \<Rightarrow>
                (case (if replace_query cfg
                       then replace_query_step E cfg C cx q (emit [AnswerCallbackQuery (q_id q)] s)
                       else (emit [AnswerCallbackQuery (q_id q)] s, None)) of
                   (s3, Some e) \<Rightarrow> Some (s3, Some e)
                 | (s3, None) \<Rightarrow>
                     (case PNone of
                        PNone \<Rightarrow> Some (s3, None)
                      | _ \<Rightarrow> prepare_answer n E cfg C cx PNone [] s3)))"
    using None d by (simp add: on_callback_query_def Let_def)
  from on_callback_query_after_call[OF assms[unfolded unfold]] show ?thesis by auto
next
  case (Some f)
  show ?thesis
  proof (cases "call E f [q_data q] []")
    case (Inl e)
    from on_callback_query_raises[OF Some Inl, of n cfg C cx] assms show ?thesis by auto
  next
    case (Inr v)
    from on_callback_query_returns[OF Some Inr assms] show ?thesis by auto
  qed
qed

lemma run_callback_queries_trace:
  "run_callback_queries n E cfg C cx qs s = Some s' \<Longrightarrow> \<exists>rest. trace s' = trace s @ rest"
proof (induction qs arbitrary: s)
  case Nil
  then show ?case by simp
next
  case (Cons q qs)
  from Cons.prems obtain s1 r where st: "on_callback_query n E cfg C cx q s = Some (s1, r)"
    and rest: "run_callback_queries n E cfg C cx qs s1 = Some s'"
    by (auto split: option.splits)
  from on_callback_query_trace[OF st] Cons.IH[OF rest] show ?case by auto
qed

lemma run_callback_queries_once:
  "\<forall>q \<in> set qs. q_message_id q = M \<Longrightarrow> run_callback_queries n E cfg C cx qs s = Some s'
   \<Longrightarrow> \<forall>req. Sent req M \<notin> set (drop (length (trace s)) (trace s'))
   \<Longrightarrow> length (calls s') \<le> length (calls s) + (if M \<in> fst ` set (query_callback s) then 1 else 0)
       \<and> (qs \<noteq> [] \<longrightarrow> M \<notin> fst ` set (query_callback s'))"
proof (induction qs arbitrary: s)
  case Nil
  then show ?case by simp
next
  case (Cons q qs)
  from Cons.prems obtain s1 r where st: "on_callback_query n E cfg C cx q s = Some (s1, r)"
    and rest: "run_callback_queries n E cfg C cx qs s1 = Some s'"
    by (auto split: option.splits)
  from Cons.prems have qm: "q_message_id q = M" by simp
  from on_callback_query_trace[OF st] obtain rest1 where t1: "trace s1 = trace s @ rest1" by blast
  from run_callback_queries_trace[OF rest] obtain rest2 where t2: "trace s' = trace s1 @ rest2"
    by blast
  from Cons.prems(3) t1 t2 have f1: "\<forall>req. Sent req M \<notin> set (drop (length (trace s)) (trace s1))"
    and f2: "\<forall>req. Sent req M \<notin> set (drop (length (trace s1)) (trace s'))" by auto
  from on_callback_query_step[OF st] f1 qm
  have 1: "M \<notin> fst ` set (query_callback s1)"
    "length (calls s1) = length (calls s) + (if M \<in> fst ` set (query_callback s) then 1 else 0)"
    by auto
  from Cons.IH[OF _ rest f2] Cons.prems
  have 2: "length (calls s') \<le> length (calls s1) + (if M \<in> fst ` set (query_callback s1) then 1 else 0)"
    "qs \<noteq> [] \<longrightarrow> M \<notin> fst ` set (query_callback s')" by auto
  have 3: "qs = [] \<longrightarrow> s' = s1" using rest by auto
  from 1 2 3 show ?case by auto
qed

lemma on_callback_query_returns_without_error_reply:
  assumes "error_reply cfg = None"
  shows "\<exists>res. on_callback_query (Suc n) E cfg C cx q s = Some res"
proof -
  have p: "\<And>v s3. \<exists>res. (case v of PNone \<Rightarrow> Some (s3, None)
                              | _ \<Rightarrow> prepare_answer (Suc n) E cfg C cx v [] s3) = Some res"
  proof -
    fix v s3
    show "\<exists>res. (case v of PNone \<Rightarrow> Some (s3, None)
                  | _ \<Rightarrow> prepare_answer (Suc n) E cfg C cx v [] s3) = Some res"
      using prepare_answer_returns[OF assms, of n E C cx v "[]" s3] by (cases v) auto
  qed
  show ?thesis
    unfolding on_callback_query_def Let_def
    using p by (auto split: option.splits prod.splits sum.splits simp del: prepare_answer.simps)
qed

text \<open>
  As long as no send recorded during the sequence gets the message id \<open>M\<close> from the
  transport, any sequence of callback queries for \<open>M\<close> calls at most one callable, and
  after the first of them \<open>M\<close> has no entry. A query for an id without entry returns,
  leaves the table unchanged, calls nothing and is acknowledged. A query for an id with
  an entry removes the entry and calls the continuation once; when the continuation
  raises, the exception leaves \<open>on_callback_query\<close> with the entry removed and nothing but
  the call in the trace; when it returns, the acknowledgement follows the call, nothing
  else is called, and the table afterwards holds only other old entries and message ids
  of sends recorded after the acknowledgement. \<open>on_callback_query\<close> returns when the
  continuation returns \<open>None\<close>, and, at any depth from one on, when no error reply is
  configured.
\<close>
lemma callback_consumed_once:
  "(\<forall>M qs s'.
      (\<forall>q \<in> set qs. q_message_id q = M)
      \<and> run_callback_queries n E cfg C cx qs s = Some s'
      \<and> (\<forall>req. Sent req M \<notin> set (drop (length (trace s)) (trace s')))
      \<longrightarrow> length (calls s') \<le> length (calls s) + 1
          \<and> (qs \<noteq> [] \<longrightarrow> M \<notin> fst ` set (query_callback s')))
   \<and> (map_of (query_callback s) (q_message_id q) = None
      \<longrightarrow> (\<exists>s' r. on_callback_query n E cfg C cx q s = Some (s', r)
             \<and> query_callback s' = query_callback s \<and> calls s' = calls s
             \<and> AnswerCallbackQuery (q_id q) \<in> set (trace s')))
   \<and> (\<forall>f e. map_of (query_callback s) (q_message_id q) = Some f
             \<and> call E f [q_data q] [] = Inl e
      \<longrightarrow> on_callback_query n E cfg C cx q s
            = Some (s\<lparr>query_callback := AList.delete (q_message_id q) (query_callback s),
                      trace := trace s @ [Called f [q_data q] []]\<rparr>, Some e))
   \<and> (\<forall>f v s' r. map_of (query_callback s) (q_message_id q) = Some f
             \<and> call E f [q_data q] [] = Inr v
             \<and> on_callback_query n E cfg C cx q s = Some (s', r)
      \<longrightarrow> (\<exists>rest. trace s' = trace s @ Called f [q_data q] [] # AnswerCallbackQuery (q_id q) # rest
                    \<and> (\<forall>ev \<in> set rest. \<not> is_Called ev)
                    \<and> (\<forall>k \<in> fst ` set (query_callback s').
                          (k \<in> fst ` set (query_callback s) \<and> k \<noteq> q_message_id q)
                          \<or> (\<exists>req. Sent req k \<in> set rest))))
   \<and> (\<forall>f. map_of (query_callback s) (q_message_id q) = Some f
           \<and> call E f [q_data q] [] = Inr PNone
      \<longrightarrow> (\<exists>s' r. on_callback_query n E cfg C cx q s = Some (s', r)))
   \<and> (error_reply cfg = None
      \<longrightarrow> (\<exists>s' r. on_callback_query (Suc n) E cfg C cx q s = Some (s', r)))"
proof (intro conjI allI impI)
  fix M qs s'
  assume a: "(\<forall>q \<in> set qs. q_message_id q = M)
      \<and> run_callback_queries n E cfg C cx qs s = Some s'
      \<and> (\<forall>req. Sent req M \<notin> set (drop (length (trace s)) (trace s')))"
  then have "length (calls s') \<le> length (calls s) + (if M \<in> fst ` set (query_callback s) then 1 else 0)
             \<and> (qs \<noteq> [] \<longrightarrow> M \<notin> fst ` set (query_callback s'))"
    by (intro run_callback_queries_once[of qs M n E cfg C cx s s']) simp_all
  then show "length (calls s') \<le> length (calls s) + 1"
    and "qs \<noteq> [] \<Longrightarrow> M \<notin> fst ` set (query_callback s')"
    by (auto split: if_splits)
next
  assume "map_of (query_callback s) (q_message_id q) = None"
  then show "\<exists>s' r. on_callback_query n E cfg C cx q s = Some (s', r)
             \<and> query_callback s' = query_callback s \<and> calls s' = calls s
             \<and> AnswerCallbackQuery (q_id q) \<in> set (trace s')"
    by (rule on_callback_query_absent)
next
  fix f e
  assume "map_of (query_callback s) (q_message_id q) = Some f \<and> call E f [q_data q] [] = Inl e"
  then show "on_callback_query n E cfg C cx q s
            = Some (s\<lparr>query_callback := AList.delete (q_message_id q) (query_callback s),
                      trace := trace s @ [Called f [q_data q] []]\<rparr>, Some e)"
    using on_callback_query_raises by blast
next
  fix f v s' r
  assume a: "map_of (query_callback s) (q_message_id q) = Some f
             \<and> call E f [q_data q] [] = Inr v
             \<and> on_callback_query n E cfg C cx q s = Some (s', r)"
  then show "\<exists>rest. trace s' = trace s @ Called f [q_data q] [] # AnswerCallbackQuery (q_id q) # rest
                    \<and> (\<forall>ev \<in> set rest. \<not> is_Called ev)
                    \<and> (\<forall>k \<in> fst ` set (query_callback s').
                          (k \<in> fst ` set (query_callback s) \<and> k \<noteq> q_message_id q)
                          \<or> (\<exists>req. Sent req k \<in> set rest))"
    by (intro on_callback_query_returns[of s q f E v n cfg C cx s' r]) simp_all
next
  fix f
  assume "map_of (query_callback s) (q_message_id q) = Some f
           \<and> call E f [q_data q] [] = Inr PNone"
  then show "\<exists>s' r. on_callback_query n E cfg C cx q s = Some (s', r)"
    by (auto simp: on_callback_query_def Let_def split: option.splits prod.splits)
next
  assume "error_reply cfg = None"
  then show "\<exists>s' r. on_callback_query (Suc n) E cfg C cx q s = Some (s', r)"
    using on_callback_query_returns_without_error_reply[of cfg n E C cx q s] by auto
qed

text \<open>
  Two queries for message 3, whose continuation returns \<open>'bye'\<close>: one call, and no
  entry for 3 afterwards.
\<close>
lemma callback_consumed_once_example:
  "calls (the (run_callback_queries 1 demo_env (demo_config\<lparr>replace_query := False\<rparr>) demo_class
                 demo_ctx [demo_query, demo_query] (demo_session\<lparr>query_callback := [(3, Fn 1)]\<rparr>)))
     = [Called (Fn 1) [''yes''] []]
   \<and> 3 \<notin> fst ` set (query_callback (the (run_callback_queries 1 demo_env
                 (demo_config\<lparr>replace_query := False\<rparr>) demo_class demo_ctx [demo_query, demo_query]
                 (demo_session\<lparr>query_callback := [(3, Fn 1)]\<rparr>))))"
proof -
  let ?s = "demo_session\<lparr>query_callback := [(3, Fn 1)]\<rparr>"
  let ?s' = "\<lparr>user_id = 5, query_callback = [],
     last_sent = Some (Answer (Some ''bye'') [] None None None (Some TEXT) None None 0, Some 7),
     trace = [Called (Fn 1) [''yes''] [], AnswerCallbackQuery ''q1'',
              Sent (demo_text_request ''bye'') 7, AnswerCallbackQuery ''q1'']\<rparr>"
  have run: "run_callback_queries 1 demo_env (demo_config\<lparr>replace_query := False\<rparr>) demo_class
                 demo_ctx [demo_query, demo_query] ?s = Some ?s'"
    by code_simp
  have fresh: "\<forall>req. Sent req 3 \<notin> set (drop (length (trace ?s)) (trace ?s'))"
    by (simp add: demo_session_def)
  have same: "\<forall>q \<in> set [demo_query, demo_query]. q_message_id q = 3"
    by (simp add: demo_query_def)
  from callback_consumed_once[THEN conjunct1, rule_format, of "[demo_query, demo_query]" 3
        1 demo_env "demo_config\<lparr>replace_query := False\<rparr>" demo_class demo_ctx ?s ?s'] fresh same run
  have "length (calls ?s') \<le> length (calls ?s) + 1
        \<and> ([demo_query, demo_query] \<noteq> [] \<longrightarrow> 3 \<notin> fst ` set (query_callback ?s'))"
    by blast
  moreover have "calls ?s' = [Called (Fn 1) [''yes''] []]" by (simp add: calls_def)
  ultimately show ?thesis unfolding run by simp
qed

text \<open>
  C9. The callback query is claimed to be acknowledged to the transport in all cases.
  \<open>on_callback_query\<close> calls the continuation outside any \<open>try\<close> block, and the call of
  \<open>answerCallbackQuery\<close>, under the comment \<open>Acknowledge the received query\<close>, is the
  statement after it: an exception of the continuation leaves \<open>on_callback_query\<close> there,
  with the continuation called once and the query not acknowledged. Evaluated on a query
  for message 3, under which a continuation is registered that raises.
\<close>
theorem on_callback_query_raising_continuation_not_acknowledged:
  "result_trace (on_callback_query 1 demo_env demo_config demo_class demo_ctx demo_query
       (demo_session\<lparr>query_callback := [(3, Fn 3)]\<rparr>))
     = Some [Called (Fn 3) [''yes''] []]
   \<and> result_exn (on_callback_query 1 demo_env demo_config demo_class demo_ctx demo_query
       (demo_session\<lparr>query_callback := [(3, Fn 3)]\<rparr>))
     = Some (Some (Exn OtherException [''boom'']))"
  by code_simp

section \<open>Failures in the pipeline\<close>

text \<open>
  A handler exception whose message can be read is contained: a warning is logged, and
  the error reply is sent when one is configured.
\<close>
lemma handler_failure_without_error_reply:
  assumes "route E C text = (f, kw)" and "call E f [] kw = Inl e"
    and "error_message e = Inr m" and "error_reply cfg = None"
  shows "handle_text_message n E cfg C cx text s
         = Some (s\<lparr>trace := trace s @ [Called f [] kw, Logged WARNING]\<rparr>, None)"
  using assms by (simp add: handle_text_message_def handle_error_def emit_def log_def)

lemma handler_failure_with_error_reply:
  assumes "route E C text = (f, kw)" and "call E f [] kw = Inl e"
    and "error_message e = Inr m" and "error_reply cfg = Some reply"
    and "Answer_send E cfg C cx (Answer_init (Some reply) []) = (a1, evs, Inr (Some mid))"
    and "callback a1 = None"
  shows "handle_text_message (Suc n) E cfg C cx text s
         = Some (s\<lparr>trace := trace s @ [Called f [] kw, Logged WARNING] @ evs,
                   last_sent := Some (a1, Some mid)\<rparr>, None)"
  using assms
  by (simp add: handle_text_message_def handle_error_def emit_def log_def try_block_def
      convert_answer_def answers_of_def)

text \<open>
  C5. In strict mode a localization miss is claimed to leave the per-event pipeline. The
  \<open>KeyError\<close> raised again by \<open>_apply_language\<close> (after the critical log record) passes
  through \<open>msg\<close>, \<open>_send\<close> and \<open>handle_answer\<close> into the \<open>try\<close> block of \<open>prepare_answer\<close>,
  whose \<open>except Exception\<close> clause catches it, logs a warning and calls \<open>handle_error\<close>:
  \<open>handle_text_message\<close> returns without an exception. Evaluated with the language
  feature and strict mode switched on, on the text \<open>'/bye'\<close>, whose handler returns the
  key \<open>'bye'\<close> that is in no language table.
\<close>
theorem strict_miss_caught_by_prepare_answer:
  "handle_text_message 1 demo_env (demo_config\<lparr>language_feature := True, strict_mode := True\<rparr>)
     demo_class demo_ctx ''/bye'' demo_session
   = Some (demo_session\<lparr>trace := [Called (Fn 1) [] [], Logged CRITICAL, Logged WARNING]\<rparr>, None)"
  by code_simp

text \<open>
  C10. Every exception of a routed handler is claimed to be contained, with the
  configured error reply sent. The \<open>except\<close> clause of \<open>handle_text_message\<close> reads
  \<open>e.args[0]\<close>; for an exception constructed without arguments this subscript raises
  \<open>IndexError\<close> inside the clause, which leaves \<open>handle_text_message\<close> before the warning
  is logged and before \<open>handle_error\<close> is called. Evaluated with an error reply
  configured, on the text \<open>'/boom'\<close>, whose handler raises such an exception.
\<close>
theorem handle_text_message_argless_exception_escapes:
  "handle_text_message 1 demo_env (demo_config\<lparr>error_reply := Some ''Sorry''\<rparr>) demo_class demo_ctx
     ''/boom'' demo_session
   = Some (demo_session\<lparr>trace := [Called (Fn 2) [] []]\<rparr>,
           Some (Exn IndexError [''tuple index out of range'']))"
  by code_simp

end
